(* ===== verification/Prelude.thy ===== *)
theory Prelude
  imports Main "HOL-Library.Sublist"
begin

text \<open>
  Shared vocabulary of the Argon model (\<open>src/Argon.py\<close>).
  \<^item> Python's string operations used by the program, on HOL strings: a HOL \<open>char\<close> is read
    as the Unicode code point \<open>of_char c < 256\<close> (Latin-1), and for those code points
    \<open>py_isspace\<close>, \<open>py_isalnum\<close> and \<open>py_lower\<close> follow CPython's \<open>str.isspace\<close>,
    \<open>str.isalnum\<close> and \<open>str.lower\<close>; \<open>py_strip\<close>, \<open>py_split\<close> and \<open>py_join\<close> are
    \<open>str.strip()\<close>, \<open>str.split()\<close> and \<open>' '.join\<close>; \<open>x in s\<close> on strings is
    \<open>sublist x s\<close> of HOL-Library.Sublist; \<open>xs[-n:]\<close> is \<open>py_last n xs\<close>;
    \<open>random.choice\<close> is \<open>py_choice\<close>, with the random draw an input of the model.
  \<^item> The process-wide state of the program (its four module globals) as the record
    \<open>argon_state\<close>, with the log of observable effects (\<open>print\<close>, \<open>os.system\<close>,
    \<open>subprocess.run\<close>) as a fifth field, so that every operation is a function from
    state to state.
  \<^item> The lemmas on these operations that the component theories share, in the collection
    \<open>py_simps\<close>.
\<close>

named_theorems py_simps "facts on the Python string and list primitives"

section \<open>Characters\<close>

definition py_isspace :: "char \<Rightarrow> bool" where
  "py_isspace c \<longleftrightarrow>
     (let n = (of_char c :: nat) in
        (9 \<le> n \<and> n \<le> 13) \<or> (28 \<le> n \<and> n \<le> 32) \<or> n = 133 \<or> n = 160)"

definition py_isalnum :: "char \<Rightarrow> bool" where
  "py_isalnum c \<longleftrightarrow>
     (let n = (of_char c :: nat) in
        (48 \<le> n \<and> n \<le> 57) \<or> (65 \<le> n \<and> n \<le> 90) \<or> (97 \<le> n \<and> n \<le> 122) \<or>
        n \<in> {170, 178, 179, 181, 185, 186} \<or> (188 \<le> n \<and> n \<le> 190) \<or>
        (192 \<le> n \<and> n \<le> 214) \<or> (216 \<le> n \<and> n \<le> 246) \<or> 248 \<le> n)"

definition py_lower_char :: "char \<Rightarrow> char" where
  "py_lower_char c =
     (let n = (of_char c :: nat) in
        if (65 \<le> n \<and> n \<le> 90) \<or> (192 \<le> n \<and> n \<le> 222 \<and> n \<noteq> 215)
        then char_of (n + 32) else c)"

abbreviation py_lower :: "string \<Rightarrow> string" where
  "py_lower s \<equiv> map py_lower_char s"

section \<open>Strings\<close>

definition py_strip :: "string \<Rightarrow> string" where
  "py_strip s = rev (dropWhile py_isspace (rev (dropWhile py_isspace s)))"

text \<open>\<open>' '.join(ws)\<close>.\<close>

fun py_join :: "string list \<Rightarrow> string" where
  "py_join [] = []"
| "py_join [w] = w"
| "py_join (w # v # ws) = w @ '' '' @ py_join (v # ws)"

text \<open>\<open>str.split()\<close> with no separator: runs of whitespace separate words, and leading or
  trailing whitespace gives no empty word. The loop ends because every round consumes a
  non-empty word.\<close>

function py_split :: "string \<Rightarrow> string list" where
  "py_split s =
     (let t = dropWhile py_isspace s in
      if t = [] then []
      else takeWhile (\<lambda>c. \<not> py_isspace c) t # py_split (dropWhile (\<lambda>c. \<not> py_isspace c) t))"
  by pat_completeness auto
termination
proof (relation "measure length")
  fix s t
  assume t: "t = dropWhile py_isspace s" and ne: "t \<noteq> []"
  from ne obtain c r where cr: "t = c # r" by (cases t) auto
  then have "\<not> py_isspace c" using hd_dropWhile [of py_isspace s] ne t by auto
  then have "length (dropWhile (\<lambda>c. \<not> py_isspace c) t) \<le> length r"
    using cr by (simp add: length_dropWhile_le)
  moreover have "length t \<le> length s" using t by (simp add: length_dropWhile_le)
  ultimately show "(dropWhile (\<lambda>c. \<not> py_isspace c) t, s) \<in> measure length" using cr by simp
qed simp

declare py_split.simps [simp del]

section \<open>Lists\<close>

text \<open>\<open>xs[-n:]\<close>: the last \<open>n\<close> elements, or all of them when there are fewer.\<close>

definition py_last :: "nat \<Rightarrow> 'a list \<Rightarrow> 'a list" where
  "py_last n xs = drop (length xs - n) xs"

text \<open>\<open>random.choice xs\<close>, with the generator's draw \<open>r\<close> given by the environment.\<close>

definition py_choice :: "'a list \<Rightarrow> nat \<Rightarrow> 'a" where
  "py_choice xs r = xs ! (r mod length xs)"

section \<open>The program's state\<close>

text \<open>Observable effects, in the order the program performs them: a line on standard
  output (\<open>print\<close>), a shell command (\<open>os.system\<close>), a run of the generation backend
  with the given standard input (\<open>subprocess.run([\<dots>], input=\<dots>)\<close>).\<close>

datatype event = Print string | Shell string | Run_Backend string

record argon_state =
  conversation_history :: "string list"
  conversation_active :: bool
  is_speaking :: bool
  interrupt_requested :: bool
  out :: "event list"

text \<open>One reading of the wall clock, in the three \<open>strftime\<close> formats the program uses:
  \<open>"%I:%M %p"\<close>, \<open>"%A, %B %d, %Y"\<close> and \<open>"%A, %B %d"\<close>.\<close>

record clock =
  time_hm :: string
  date_long :: string
  date_short :: string

definition init_state :: argon_state where
  "init_state = \<lparr>conversation_history = [], conversation_active = False,
                 is_speaking = False, interrupt_requested = False, out = []\<rparr>"

definition emit :: "event list \<Rightarrow> argon_state \<Rightarrow> argon_state" where
  "emit es s = s\<lparr>out := out s @ es\<rparr>"

text \<open>A word of \<open>str.split()\<close>: non-empty, without white space.\<close>

definition word_ok :: "string \<Rightarrow> bool" where
  "word_ok w \<longleftrightarrow> w \<noteq> [] \<and> (\<forall>c \<in> set w. \<not> py_isspace c)"

section \<open>Shared lemmas\<close>

lemma emit_fields [simp]:
  "conversation_history (emit es s) = conversation_history s"
  "conversation_active (emit es s) = conversation_active s"
  "is_speaking (emit es s) = is_speaking s"
  "interrupt_requested (emit es s) = interrupt_requested s"
  "out (emit es s) = out s @ es"
  by (simp_all add: emit_def)

lemma emit_emit [simp]: "emit b (emit a s) = emit (a @ b) s"
  by (simp add: emit_def)

lemma emit_Nil [simp]: "emit [] s = s"
  by (simp add: emit_def)


lemma space_char [py_simps]: "py_isspace (CHR '' '')"
  by (simp add: py_isspace_def)

lemma py_split_Nil [py_simps]: "py_split [] = []"
  by (simp add: py_split.simps)

lemma py_split_space [py_simps]: "py_isspace c \<Longrightarrow> py_split (c # s) = py_split s"
  by (simp add: py_split.simps [of "c # s"] py_split.simps [of s])

lemma py_split_word [py_simps]:
  assumes "word_ok w" and "r = [] \<or> py_isspace (hd r)"
  shows "py_split (w @ r) = w # py_split r"
proof -
  have w: "w \<noteq> []" "\<forall>c \<in> set w. \<not> py_isspace c" using assms(1) by (auto simp: word_ok_def)
  then have d: "dropWhile py_isspace (w @ r) = w @ r" by (cases w) auto
  have t: "takeWhile (\<lambda>c. \<not> py_isspace c) (w @ r) = w"
    using w assms(2) by (cases r) auto
  have e: "dropWhile (\<lambda>c. \<not> py_isspace c) (w @ r) = r"
    using w assms(2) by (cases r) auto
  show ?thesis using w by (simp add: py_split.simps [of "w @ r"] d t e)
qed

lemma py_split_unfold:
  "dropWhile py_isspace s \<noteq> [] \<Longrightarrow>
   py_split s = takeWhile (\<lambda>c. \<not> py_isspace c) (dropWhile py_isspace s) #
                py_split (dropWhile (\<lambda>c. \<not> py_isspace c) (dropWhile py_isspace s))"
  by (simp only: py_split.simps [of s] Let_def if_not_P if_False)

lemma py_split_words_ok [py_simps]: "w \<in> set (py_split s) \<Longrightarrow> word_ok w"
proof (induction s rule: py_split.induct)
  case (1 s)
  let ?t = "dropWhile py_isspace s"
  show ?case
  proof (cases "?t = []")
    case True
    with "1.prems" show ?thesis by (simp add: py_split.simps [of s])
  next
    case False
    then obtain c r where cr: "?t = c # r" by (cases ?t) auto
    then have "\<not> py_isspace c" using hd_dropWhile [of py_isspace s] False by auto
    then have head: "word_ok (takeWhile (\<lambda>c. \<not> py_isspace c) ?t)"
      using cr by (auto simp: word_ok_def dest: set_takeWhileD)
    from "1.prems" py_split_unfold [OF False] have
      "w = takeWhile (\<lambda>c. \<not> py_isspace c) ?t \<or> w \<in> set (py_split (dropWhile (\<lambda>c. \<not> py_isspace c) ?t))"
      by simp
    then show ?thesis using head "1.IH" [OF refl False] by blast
  qed
qed

text \<open>Joining words with one space and splitting again gives the words back.\<close>

lemma py_split_join [py_simps]: "\<forall>w \<in> set ws. word_ok w \<Longrightarrow> py_split (py_join ws) = ws"
proof (induction ws rule: py_join.induct)
  case 1
  then show ?case by (simp add: py_split_Nil)
next
  case (2 w)
  then show ?case using py_split_word [of w "[]"] by (simp add: py_split_Nil)
next
  case (3 w v ws)
  then have "py_split (w @ CHR '' '' # py_join (v # ws)) = w # py_split (CHR '' '' # py_join (v # ws))"
    by (intro py_split_word) (simp_all add: space_char)
  with 3 show ?case by (simp add: py_split_space space_char)
qed

lemma py_join_inj [py_simps]:
  "\<forall>w \<in> set xs. word_ok w \<Longrightarrow> \<forall>w \<in> set ys. word_ok w \<Longrightarrow> py_join xs = py_join ys \<Longrightarrow> xs = ys"
  by (metis py_split_join)

lemma py_split_join_split [py_simps]: "py_split (py_join (py_split s)) = py_split s"
  by (rule py_split_join) (blast intro: py_split_words_ok)

lemma py_choice_in [py_simps]: "xs \<noteq> [] \<Longrightarrow> py_choice xs r \<in> set xs"
  by (simp add: py_choice_def)

lemma length_py_last [py_simps]: "length (py_last n xs) = min n (length xs)"
  by (simp add: py_last_def)

lemma py_strip_Nil_iff [py_simps]: "py_strip s = [] \<longleftrightarrow> (\<forall>c \<in> set s. py_isspace c)"
proof -
  have "(\<forall>c \<in> set (dropWhile py_isspace s). py_isspace c) \<longleftrightarrow> dropWhile py_isspace s = []"
  proof
    assume a: "\<forall>c \<in> set (dropWhile py_isspace s). py_isspace c"
    show "dropWhile py_isspace s = []"
    proof (rule ccontr)
      assume ne: "dropWhile py_isspace s \<noteq> []"
      then have "\<not> py_isspace (hd (dropWhile py_isspace s))" by (rule hd_dropWhile)
      with a ne show False by simp
    qed
  qed (auto dest: set_dropWhileD)
  then show ?thesis unfolding py_strip_def by simp
qed
lemma py_strip_strip_ne [py_simps]: "py_strip s \<noteq> [] \<Longrightarrow> py_strip (py_strip s) \<noteq> []"
proof -
  assume ne: "py_strip s \<noteq> []"
  let ?d = "dropWhile py_isspace (rev (dropWhile py_isspace s))"
  have d: "?d \<noteq> []" using ne unfolding py_strip_def by simp
  then have "\<not> py_isspace (hd ?d)" by (rule hd_dropWhile)
  moreover have "hd ?d \<in> set (py_strip s)" using d unfolding py_strip_def by simp
  ultimately show ?thesis by (auto simp: py_strip_Nil_iff)
qed
end
