(* ===== verification/Utterance_Filter.thy ===== *)
theory Utterance_Filter
  imports Prelude
begin

text \<open>
  The utterance filter: \<open>listen\<close> and \<open>is_whisper_hallucination\<close> of \<open>src/Argon.py\<close>.
  The microphone and the Whisper model are collaborators outside the model; what they
  deliver to the program is the datatype \<open>capture\<close>. \<open>transcript_text\<close> is the part of
  \<open>listen\<close> that cleans and validates a transcript; \<open>listen\<close> adds the outcomes of the
  capture itself. \<open>filter_spec\<close> is the filter as the specification words it (rules in
  the order length, artefact phrase, repetition, and the first half taking the odd word),
  and the lemmas show that the code implements it and characterise what it rejects.
\<close>

section \<open>Definitions\<close>

text \<open>What the capture collaborators hand back: opening the microphone failed
  (\<open>sr.Microphone()\<close>, line 50, before anything is printed), the wait timed out
  (\<open>sr.WaitTimeoutError\<close>), another error raised while calibrating, listening or writing
  the audio file (lines 52--61, not caught by \<open>listen\<close>), a transcript, or an exception
  inside the transcription \<open>try\<close>.\<close>

datatype capture =
  Microphone_Error | Wait_Timeout | Capture_Error | Transcribed string | Transcribe_Error

datatype listen_error = Uncaught_Capture_Error

definition hallucinations :: "string list" where
  "hallucinations =
     [''thank you for watching'', ''subscribe'', ''english translation'',
      ''transcribed by'', ''translation by'', ''subtitles by'']"

definition is_whisper_hallucination :: "string \<Rightarrow> bool" where
  "is_whisper_hallucination text =
     (let text_lower = py_lower text in
      if list_ex (\<lambda>phrase. sublist phrase text_lower) hallucinations then True
      else
        let words = py_split text in
        if 5 < length words then
          (let first_half = py_join (take (length words div 2) words);
               second_half = py_join (drop (length words div 2) words)
           in first_half = second_half)
        else False)"

text \<open>Lines 66--81: the stripped transcript, or \<open>''''\<close> when it is rejected; an accepted
  transcript is echoed to standard output.\<close>

definition transcript_text :: "string \<Rightarrow> argon_state \<Rightarrow> string \<times> argon_state" where
  "transcript_text raw s =
     (let text = py_strip raw in
      if length text < 2 then ([], s)
      else if is_whisper_hallucination text then ([], s)
      else if 200 < length text then ([], s)
      else (text, emit [Print (''You: '' @ text)] s))"

definition listen :: "capture \<Rightarrow> argon_state \<Rightarrow> (listen_error + string) \<times> argon_state" where
  "listen c s =
     (let s1 = emit [Print (CHR 0x0A # ''Listening...'')] s in
      case c of
        Microphone_Error \<Rightarrow> (Inl Uncaught_Capture_Error, s)
      | Wait_Timeout \<Rightarrow> (Inr [], s1)
      | Capture_Error \<Rightarrow> (Inl Uncaught_Capture_Error, s1)
      | Transcribe_Error \<Rightarrow> (Inr [], s1)
      | Transcribed raw \<Rightarrow> (case transcript_text raw s1 of (t, s2) \<Rightarrow> (Inr t, s2)))"

text \<open>The filter of the specification (section 4.1), as an option: rejected, or the
  valid text.\<close>

definition filter_spec :: "string \<Rightarrow> string option" where
  "filter_spec raw =
     (let t = py_strip raw; ws = py_split t; n = length ws in
      if length t < 2 then None
      else if 200 < length t then None
      else if (\<exists>p \<in> set hallucinations. sublist p (py_lower t)) then None
      else if 5 < n \<and> py_join (take ((n + 1) div 2) ws) = py_join (drop ((n + 1) div 2) ws)
      then None
      else Some t)"

section \<open>Lemmas\<close>

lemma transcript_text_state:
  "snd (transcript_text raw s) = s \<or>
   snd (transcript_text raw s) = emit [Print (''You: '' @ fst (transcript_text raw s))] s"
  by (simp add: transcript_text_def Let_def)

text \<open>Halves of a split word list: joined, they are equal exactly when the lists are.\<close>

lemma join_halves_eq_iff:
  assumes "ws = py_split t"
  shows "py_join (take k ws) = py_join (drop k ws) \<longleftrightarrow> take k ws = drop k ws"
proof
  have ok: "\<And>w. w \<in> set ws \<Longrightarrow> word_ok w" using assms by (simp add: py_split_words_ok)
  have a: "\<forall>w \<in> set (take k ws). word_ok w" by (meson in_set_takeD ok)
  have b: "\<forall>w \<in> set (drop k ws). word_ok w" by (meson in_set_dropD ok)
  assume "py_join (take k ws) = py_join (drop k ws)"
  then show "take k ws = drop k ws" by (rule py_join_inj [OF a b])
qed simp

lemma take_eq_drop_half:
  "take (length ws div 2) ws = drop (length ws div 2) ws \<longleftrightarrow> (\<exists>h. ws = h @ h)"
proof
  assume eq: "take (length ws div 2) ws = drop (length ws div 2) ws"
  have "ws = take (length ws div 2) ws @ drop (length ws div 2) ws" by simp
  with eq show "\<exists>h. ws = h @ h" by metis
next
  assume "\<exists>h. ws = h @ h"
  then obtain h where "ws = h @ h" by blast
  then show "take (length ws div 2) ws = drop (length ws div 2) ws" by simp
qed

lemma take_drop_unequal_length:
  assumes "odd (length ws)"
  shows "take ((length ws + 1) div 2) ws \<noteq> drop ((length ws + 1) div 2) ws"
proof
  assume "take ((length ws + 1) div 2) ws = drop ((length ws + 1) div 2) ws"
  then have "length (take ((length ws + 1) div 2) ws) = length (drop ((length ws + 1) div 2) ws)"
    by simp
  then have "min (length ws) ((length ws + 1) div 2) = length ws - (length ws + 1) div 2"
    by simp
  with assms show False by presburger
qed

lemma repeated_halves_iff:
  "ws = py_split t \<Longrightarrow>
   (py_join (take (length ws div 2) ws) = py_join (drop (length ws div 2) ws)) \<longleftrightarrow>
   (py_join (take ((length ws + 1) div 2) ws) = py_join (drop ((length ws + 1) div 2) ws))"
proof (cases "even (length ws)")
  case True
  then show "ws = py_split t \<Longrightarrow> ?thesis" by simp
next
  case False
  assume ws: "ws = py_split t"
  have "\<not> (\<exists>h. ws = h @ h)" using False by auto
  then have "take (length ws div 2) ws \<noteq> drop (length ws div 2) ws" using take_eq_drop_half by blast
  moreover have "take ((length ws + 1) div 2) ws \<noteq> drop ((length ws + 1) div 2) ws"
    using False by (rule take_drop_unequal_length)
  ultimately show ?thesis using join_halves_eq_iff [OF ws] by blast
qed

lemma hallucination_spec_form:
  "is_whisper_hallucination t \<longleftrightarrow>
   (\<exists>p \<in> set hallucinations. sublist p (py_lower t)) \<or>
   (5 < length (py_split t) \<and>
    py_join (take ((length (py_split t) + 1) div 2) (py_split t)) =
    py_join (drop ((length (py_split t) + 1) div 2) (py_split t)))"
  using repeated_halves_iff [of "py_split t" t]
  by (simp add: is_whisper_hallucination_def Let_def list_ex_iff)

lemma transcript_text_filter:
  "fst (transcript_text raw s) = (case filter_spec raw of None \<Rightarrow> [] | Some t \<Rightarrow> t)"
  using hallucination_spec_form [of "py_strip raw"]
  by (simp add: transcript_text_def filter_spec_def Let_def)

lemma filter_spec_Some: "filter_spec raw = Some t \<Longrightarrow> t = py_strip raw \<and> 2 \<le> length t"
  by (auto simp: filter_spec_def Let_def split: if_splits)

lemma transcript_text_Some:
  "filter_spec raw = Some u \<Longrightarrow> transcript_text raw s = (u, emit [Print (''You: '' @ u)] s)"
  using hallucination_spec_form [of "py_strip raw"]
  by (auto simp: transcript_text_def filter_spec_def Let_def split: if_splits)

lemma transcript_text_None: "filter_spec raw = None \<Longrightarrow> transcript_text raw s = ([], s)"
  using hallucination_spec_form [of "py_strip raw"]
  by (auto simp: transcript_text_def filter_spec_def Let_def split: if_splits)

lemma listen_emits:
  assumes "listen c s = (r, s')"
  shows "\<exists>es. s' = emit es s"
proof (cases "c = Microphone_Error")
  case True
  then have "s' = emit [] s" using assms by (simp add: listen_def)
  then show ?thesis ..
next
  case False
  then show ?thesis using assms
    by (auto simp: listen_def transcript_text_def Let_def split: capture.splits if_splits)
qed

section \<open>Properties\<close>

text \<open>C1. The code's filter (lines 63--81 with \<open>is_whisper_hallucination\<close>) is the
  filter of the specification: it keeps exactly the transcripts the specification accepts,
  stripped, although it checks the rules in another order and gives the odd word of the
  repetition check to the second half where the specification gives it to the first.\<close>

theorem transcript_text_refines_filter_spec:
  "fst (transcript_text raw s) = (case filter_spec raw of None \<Rightarrow> [] | Some t \<Rightarrow> t)"
  by (rule transcript_text_filter)

lemma transcript_text_refines_filter_spec_witness:
  "fst (transcript_text ''  hey argon '' init_state) = ''hey argon''"
proof -
  have "filter_spec ''  hey argon '' = Some ''hey argon''" by code_simp
  with transcript_text_refines_filter_spec [of "''  hey argon ''" init_state] show ?thesis by simp
qed

text \<open>C2. \<open>is_whisper_hallucination\<close> rejects a text exactly when its lower-case form
  contains an artefact phrase, or it has more than five words and its word list is one list
  of words said twice.\<close>

theorem is_whisper_hallucination_iff:
  "is_whisper_hallucination t \<longleftrightarrow>
   (\<exists>p \<in> set hallucinations. sublist p (py_lower t)) \<or>
   (5 < length (py_split t) \<and> (\<exists>h. py_split t = h @ h))"
  using join_halves_eq_iff [of "py_split t" t "length (py_split t) div 2"]
  by (simp add: is_whisper_hallucination_def Let_def list_ex_iff take_eq_drop_half)

lemma is_whisper_hallucination_iff_witness:
  "is_whisper_hallucination ''one two three one two three''"
proof -
  have e: "py_split ''one two three one two three'' =
             [''one'', ''two'', ''three''] @ [''one'', ''two'', ''three'']" by code_simp
  have "5 < length (py_split ''one two three one two three'') \<and>
        (\<exists>h. py_split ''one two three one two three'' = h @ h)"
    unfolding e by (intro conjI exI [of _ "[''one'', ''two'', ''three'']"]) simp_all
  then show ?thesis using is_whisper_hallucination_iff [of "''one two three one two three''"] by blast
qed

text \<open>C3. A transcript that passes the filter is the stripped transcript, between 2 and
  200 characters long, free of every artefact phrase in any case, and it is echoed to
  standard output as \<open>You: \<dots>\<close>; nothing else changes.\<close>

theorem transcript_text_accepted:
  assumes "fst (transcript_text raw s) = t" and "t \<noteq> []"
  shows "t = py_strip raw \<and> 2 \<le> length t \<and> length t \<le> 200 \<and>
         \<not> (\<exists>p \<in> set hallucinations. sublist p (py_lower t)) \<and>
         snd (transcript_text raw s) = emit [Print (''You: '' @ t)] s"
  using assms hallucination_spec_form [of "py_strip raw"]
  by (auto simp: transcript_text_def Let_def split: if_splits)

lemma transcript_text_accepted_witness:
  "''hey argon'' = py_strip ''  hey argon '' \<and> 2 \<le> length ''hey argon'' \<and>
   length ''hey argon'' \<le> 200 \<and>
   \<not> (\<exists>p \<in> set hallucinations. sublist p (py_lower ''hey argon'')) \<and>
   snd (transcript_text ''  hey argon '' init_state) = emit [Print (''You: '' @ ''hey argon'')] init_state"
proof -
  have "filter_spec ''  hey argon '' = Some ''hey argon''" by code_simp
  then have e: "fst (transcript_text ''  hey argon '' init_state) = ''hey argon''"
    by (simp only: transcript_text_filter option.case)
  have ne: "''hey argon'' \<noteq> []" by simp
  show ?thesis by (rule transcript_text_accepted [OF e ne])
qed

end
