(* ===== verification/Speech.thy ===== *)
theory Speech
  imports Prelude
begin

text \<open>
  Speech output: \<open>speak\<close> of \<open>src/Argon.py\<close> (lines 175--188). It prints the reply,
  removes every character outside \<open>[\w\s.,!?\-]\<close> (Python's \<open>re.sub\<close> on a
  \<open>str\<close> pattern, where \<open>\w\<close> is \<open>str.isalnum()\<close> or \<open>_\<close> and \<open>\s\<close> is
  \<open>str.isspace()\<close>), raises \<open>is_speaking\<close>, clears \<open>interrupt_requested\<close>, runs
  \<open>say "\<dots>"\<close> through the shell and lowers \<open>is_speaking\<close> again. The lemmas show what
  the shell receives: one double-quoted word in which the shell expands nothing and which the
  text cannot leave. They do not make the word harmless to \<open>say\<close> itself: a text
  that begins with \<open>-\<close> keeps it, and \<open>say\<close> reads such a word as an option.
\<close>

section \<open>Definitions\<close>

definition is_kept_char :: "char \<Rightarrow> bool" where
  "is_kept_char c \<longleftrightarrow>
     py_isalnum c \<or> c = CHR ''_'' \<or> py_isspace c \<or> c \<in> set ''.,!?-''"

definition clean_text :: "string \<Rightarrow> string" where
  "clean_text text = filter is_kept_char text"

definition say_command :: "string \<Rightarrow> string" where
  "say_command clean = ''say \"'' @ clean @ ''\"''"

definition speak :: "string \<Rightarrow> argon_state \<Rightarrow> argon_state" where
  "speak text s =
     (let s1 = emit [Print (''Argon: '' @ text)] s;
          clean = clean_text text;
          s2 = s1\<lparr>is_speaking := True, interrupt_requested := False\<rparr>;
          s3 = emit [Shell (say_command clean)] s2
      in s3\<lparr>is_speaking := False\<rparr>)"

text \<open>The characters a POSIX shell interprets inside double quotes: \<open>"\<close>, \<open>$\<close>,
  backquote and backslash.\<close>

definition dquote_special :: "char list" where
  "dquote_special = [CHR 0x22, CHR 0x24, CHR 0x60, CHR 0x5C]"

text \<open>The two effects of \<open>speak text\<close>, in order.\<close>

definition spoken :: "string \<Rightarrow> event list" where
  "spoken text = [Print (''Argon: '' @ text), Shell (say_command (clean_text text))]"

section \<open>Lemmas\<close>

lemma speak_fields [simp]:
  "conversation_history (speak t s) = conversation_history s"
  "conversation_active (speak t s) = conversation_active s"
  "is_speaking (speak t s) = False"
  "interrupt_requested (speak t s) = False"
  "out (speak t s) = out s @ spoken t"
  by (simp_all add: speak_def spoken_def Let_def)

lemma special_not_kept: "c \<in> set dquote_special \<Longrightarrow> \<not> is_kept_char c"
  by (auto simp: dquote_special_def is_kept_char_def py_isalnum_def py_isspace_def)

text \<open>A leading \<open>-\<close> survives the cleaning, so the word handed to \<open>say\<close> can be
  read as one of its options.\<close>

lemma clean_text_leading_dash: "clean_text ''-o reply'' = ''-o reply''"
  by code_simp

section \<open>Properties\<close>

text \<open>C13. \<open>speak\<close> prints the text and then runs \<open>say\<close> with the cleaned text as one
  double-quoted word; the cleaned text keeps only word characters, white space and
  \<open>. , ! ? -\<close>, in their order, so it holds none of the characters the shell interprets
  inside double quotes (the shell expands nothing and the text cannot end the quoted word
  to add shell syntax), and cleaning again changes
  nothing; afterwards nothing is being spoken and no interrupt is pending.\<close>

theorem speak_shell_safe:
  "out (speak t s) =
     out s @ [Print (''Argon: '' @ t), Shell (''say '' @ CHR 0x22 # clean_text t @ [CHR 0x22])] \<and>
   (\<forall>c \<in> set (clean_text t). is_kept_char c \<and> c \<notin> set dquote_special) \<and>
   subseq (clean_text t) t \<and> clean_text (clean_text t) = clean_text t \<and>
   \<not> is_speaking (speak t s) \<and> \<not> interrupt_requested (speak t s)"
  by (auto simp: spoken_def say_command_def clean_text_def dest: special_not_kept)

lemma speak_shell_safe_witness:
  "CHR 0x22 \<notin> set (clean_text (''x'' @ [CHR 0x22, CHR 0x3B] @ '' rm -rf '' @ [CHR 0x24] @ ''HOME'')) \<and>
   CHR 0x24 \<notin> set (clean_text (''x'' @ [CHR 0x22, CHR 0x3B] @ '' rm -rf '' @ [CHR 0x24] @ ''HOME''))"
  using speak_shell_safe [of "''x'' @ [CHR 0x22, CHR 0x3B] @ '' rm -rf '' @ [CHR 0x24] @ ''HOME''" init_state]
  by (auto simp: dquote_special_def)

end
