(* ===== verification/Router.thy ===== *)
theory Router
  imports Speech
begin

text \<open>
  The intent router: \<open>handle_wake_word\<close> and \<open>handle_casual_commands\<close> of
  \<open>src/Argon.py\<close> (lines 190--240) with their canned replies (lines 22--39), and the
  router of the specification (section 4.2) as the function \<open>route\<close> over the action
  datatype of the specification. Every match is \<open>phrase in text.lower()\<close>, a substring
  test on the lower-cased text; a handler that matches speaks its reply through
  \<open>speak\<close>. The random draw of \<open>random.choice\<close> is an argument.
\<close>

section \<open>Definitions\<close>

definition WAKE_RESPONSES :: "string list" where
  "WAKE_RESPONSES = [''Hello.'', ''Ready.'', ''Yes?'', ''I\\'m here.'']"

definition CONVERSATION_STARTERS :: "string list" where
  "CONVERSATION_STARTERS = [''How can I help?'', ''What do you need?'', ''Ask me anything.'']"

definition status_responses :: "string list" where
  "status_responses =
     [''I\\'m good. How about you?'', ''Fine. What\\'s going on?'',
      ''All good. What do you need?'', ''I\\'m well. How are you?'']"

definition wake_words :: "string list" where
  "wake_words = [''argon'', ''hey argon'', ''hello argon'']"

definition time_phrases :: "string list" where
  "time_phrases = [''what time'', ''time'']"

definition date_phrases :: "string list" where
  "date_phrases = [''what date'', ''today'']"

definition status_phrases :: "string list" where
  "status_phrases = [''how are you'', ''how\\'s it going'', ''what\\'s up'']"

definition starter_phrases :: "string list" where
  "starter_phrases = [''let\\'s chat'', ''talk to me'', ''conversation'']"

definition exit_phrases :: "string list" where
  "exit_phrases = [''goodbye'', ''bye'', ''see you'', ''talk later'', ''go offline'']"

text \<open>\<open>any(phrase in text.lower() for phrase in phrases)\<close>.\<close>

definition mentions :: "string list \<Rightarrow> string \<Rightarrow> bool" where
  "mentions phrases text \<longleftrightarrow> list_ex (\<lambda>phrase. sublist phrase (py_lower text)) phrases"

definition handle_wake_word :: "string \<Rightarrow> nat \<Rightarrow> argon_state \<Rightarrow> bool \<times> argon_state" where
  "handle_wake_word text r s =
     (if mentions wake_words text
      then (True, speak (py_choice WAKE_RESPONSES r) (s\<lparr>conversation_active := True\<rparr>))
      else (False, s))"

text \<open>The three results of \<open>handle_casual_commands\<close>: \<open>True\<close>, \<open>"EXIT"\<close>, \<open>False\<close>.\<close>

datatype cmd_result = Cmd_Handled | Cmd_Exit | Cmd_None

definition handle_casual_commands ::
  "string \<Rightarrow> clock \<Rightarrow> nat \<Rightarrow> argon_state \<Rightarrow> cmd_result \<times> argon_state" where
  "handle_casual_commands text clk r s =
     (if mentions time_phrases text then
        (Cmd_Handled,
         (speak (''It\\'s '' @ time_hm clk @ '' right now.'') s)\<lparr>conversation_active := True\<rparr>)
      else if mentions date_phrases text then
        (Cmd_Handled,
         (speak (''Today is '' @ date_short clk @ ''.'') s)\<lparr>conversation_active := True\<rparr>)
      else if mentions status_phrases text then
        (Cmd_Handled,
         (speak (py_choice status_responses r) s)\<lparr>conversation_active := True\<rparr>)
      else if mentions starter_phrases text then
        (Cmd_Handled,
         (speak (py_choice CONVERSATION_STARTERS r) s)\<lparr>conversation_active := True\<rparr>)
      else if mentions exit_phrases text then
        (Cmd_Exit, speak ''Going offline. Goodbye.'' s)
      else (Cmd_None, s))"

subsection \<open>The router of the specification\<close>

datatype action =
  WakeAck | TimeQuery | DateQuery | StatusQuery | ConversationStarter | Exit | Continue | Dialogue

text \<open>Section 4.2: the action for a valid text and the value of \<open>active\<close> after it.\<close>

definition route :: "string \<Rightarrow> bool \<Rightarrow> action \<times> bool" where
  "route text active =
     (if mentions wake_words text then (WakeAck, True)
      else if mentions time_phrases text then (TimeQuery, True)
      else if mentions date_phrases text then (DateQuery, True)
      else if mentions status_phrases text then (StatusQuery, True)
      else if mentions starter_phrases text then (ConversationStarter, True)
      else if mentions exit_phrases text then (Exit, active)
      else if active \<or> 1 < length (py_split text) then (Dialogue, True)
      else (Continue, active))"

section \<open>Lemmas\<close>

lemma handle_wake_word_False:
  "\<not> mentions wake_words text \<Longrightarrow> handle_wake_word text r s = (False, s)"
  by (simp add: handle_wake_word_def)

lemma handle_casual_commands_None:
  "\<not> mentions time_phrases text \<Longrightarrow> \<not> mentions date_phrases text \<Longrightarrow>
   \<not> mentions status_phrases text \<Longrightarrow> \<not> mentions starter_phrases text \<Longrightarrow>
   \<not> mentions exit_phrases text \<Longrightarrow> handle_casual_commands text clk r s = (Cmd_None, s)"
  by (simp add: handle_casual_commands_def)

lemma handle_casual_commands_fields:
  "handle_casual_commands text clk r s = (res, s') \<Longrightarrow>
   conversation_history s' = conversation_history s \<and> \<not> is_speaking s' \<or> s' = s"
  by (auto simp: handle_casual_commands_def split: if_splits)

end
