(* ===== verification/Context_Window.thy ===== *)
theory Context_Window
  imports Prelude
begin

text \<open>
  The context window: the module global \<open>conversation_history\<close> of \<open>src/Argon.py\<close>, a
  flat list in which user lines and replies alternate, as \<open>ask_gemma\<close> updates it
  (lines 160--165) and reads it to build the prompt (lines 122--143). The specification
  describes it as a window of at most four (user, agent) pairs, oldest evicted first; that
  is \<open>window_append\<close> over \<open>pairs_of\<close>, and the lemmas show that the flat list, kept
  of even length and at most eight entries by every update, implements it, and that the
  prompt shows the last two pairs with the labels in the right places.
\<close>

section \<open>Definitions\<close>

abbreviation nl :: string where
  "nl \<equiv> [CHR 0x0A]"

definition system_prompt :: "clock \<Rightarrow> string" where
  "system_prompt clk =
     ''You are Argon, a helpful AI assistant having a conversation.'' @ nl @
     ''Be direct, helpful, and conversational. Keep responses reasonably short.'' @ nl @
     ''Avoid excessive emojis or overly enthusiastic language.'' @ nl @ nl @
     ''Current time: '' @ time_hm clk @ nl @
     ''Current date: '' @ date_long clk @ nl @ nl @
     ''Give natural, helpful responses without being too chatty.'' @ nl @ nl"

text \<open>The list comprehension over \<open>enumerate(conversation_history[-4:])\<close>: an entry at an
  even position is a user line, at an odd position a reply.\<close>

fun history_lines :: "nat \<Rightarrow> string list \<Rightarrow> string list" where
  "history_lines i [] = []"
| "history_lines i (h # hs) =
     (if i mod 2 = 0 then ''You: '' @ h else ''Argon: '' @ h) # history_lines (Suc i) hs"

text \<open>\<open>"\n".join(lines)\<close>.\<close>

fun join_lines :: "string list \<Rightarrow> string" where
  "join_lines [] = []"
| "join_lines [l] = l"
| "join_lines (l # m # ls) = l @ nl @ join_lines (m # ls)"

definition render_prompt :: "clock \<Rightarrow> string list \<Rightarrow> string \<Rightarrow> string" where
  "render_prompt clk history prompt =
     (if history \<noteq> [] then
        (let context = join_lines (history_lines 0 (py_last 4 history)) in
         system_prompt clk @ ''Recent conversation:'' @ nl @ context @ nl @ nl @
         ''You: '' @ prompt @ nl @ ''Argon:'')
      else system_prompt clk @ ''You: '' @ prompt @ nl @ ''Argon:'')"

definition history_append :: "string list \<Rightarrow> string \<Rightarrow> string \<Rightarrow> string list" where
  "history_append history prompt response =
     (let h = history @ [prompt, response] in if 8 < length h then py_last 8 h else h)"

subsection \<open>The window of the specification\<close>

fun pairs_of :: "'a list \<Rightarrow> ('a \<times> 'a) list" where
  "pairs_of (a # b # r) = (a, b) # pairs_of r"
| "pairs_of _ = []"

definition window_append :: "('a \<times> 'a) list \<Rightarrow> 'a \<times> 'a \<Rightarrow> ('a \<times> 'a) list" where
  "window_append w p = py_last 4 (w @ [p])"

definition history_wf :: "'a list \<Rightarrow> bool" where
  "history_wf h \<longleftrightarrow> even (length h) \<and> length h \<le> 8"

definition pair_lines :: "string \<times> string \<Rightarrow> string list" where
  "pair_lines p = [''You: '' @ fst p, ''Argon: '' @ snd p]"

section \<open>Lemmas\<close>

lemma pairs_of_append: "even (length xs) \<Longrightarrow> pairs_of (xs @ ys) = pairs_of xs @ pairs_of ys"
  by (induction xs rule: pairs_of.induct) auto

lemma length_pairs_of: "length (pairs_of xs) = length xs div 2"
  by (induction xs rule: pairs_of.induct) auto

lemma pairs_of_drop: "pairs_of (drop (2 * m) xs) = drop m (pairs_of xs)"
proof (induction m arbitrary: xs)
  case 0
  show ?case by simp
next
  case (Suc m)
  show ?case
  proof (cases xs rule: pairs_of.cases)
    case (1 a b r)
    then show ?thesis using Suc.IH [of r] by simp
  qed simp_all
qed

lemma pairs_of_py_last:
  assumes "even (length xs)"
  shows "pairs_of (py_last (2 * n) xs) = py_last n (pairs_of xs)"
proof -
  obtain m where m: "length xs = 2 * m" using assms by (elim evenE)
  then have "length xs - 2 * n = 2 * (m - n)" by simp
  then show ?thesis using m by (simp add: py_last_def pairs_of_drop length_pairs_of)
qed

lemma history_lines_pairs:
  "even i \<Longrightarrow> even (length xs) \<Longrightarrow> history_lines i xs = concat (map pair_lines (pairs_of xs))"
proof (induction xs arbitrary: i rule: pairs_of.induct)
  case (1 a b r)
  then have "i mod 2 = 0" "Suc i mod 2 \<noteq> 0" "even (Suc (Suc i))" "even (length r)"
    by simp_all presburger
  with "1.IH" show ?case by (simp add: pair_lines_def)
qed simp_all

lemma history_wf_append [intro]: "history_wf h \<Longrightarrow> history_wf (history_append h u a)"
  by (auto simp: history_append_def history_wf_def Let_def py_last_def)

lemma history_wf_Nil [simp]: "history_wf []"
  by (simp add: history_wf_def)

lemma history_append_pairs:
  assumes "history_wf h"
  shows "pairs_of (history_append h u a) = window_append (pairs_of h) (u, a)"
proof -
  have e: "even (length (h @ [u, a]))" using assms by (simp add: history_wf_def)
  have p: "pairs_of (h @ [u, a]) = pairs_of h @ [(u, a)]"
    using assms by (simp add: history_wf_def pairs_of_append)
  show ?thesis
  proof (cases "8 < length (h @ [u, a])")
    case True
    then show ?thesis
      using pairs_of_py_last [OF e, of 4] p by (simp add: history_append_def window_append_def)
  next
    case False
    then have "length (pairs_of h @ [(u, a)]) \<le> 4" using p length_pairs_of [of "h @ [u, a]"] by simp
    with False p show ?thesis by (simp add: history_append_def window_append_def py_last_def)
  qed
qed

section \<open>Properties\<close>

text \<open>C4. On a history of even length with at most eight entries, appending an exchange
  and cutting the list to its last eight entries is the window of the specification: the
  pairs of the new history are the old pairs with the new one added last and the oldest
  dropped beyond four; and the new history is again of even length and at most eight
  entries.\<close>

theorem history_append_refines_window:
  assumes "history_wf h"
  shows "pairs_of (history_append h u a) = window_append (pairs_of h) (u, a) \<and>
         history_wf (history_append h u a)"
  using history_append_pairs [OF assms] history_wf_append [OF assms] by blast

lemma history_append_refines_window_witness:
  "pairs_of (history_append [''a'', ''b''] ''c'' ''d'') = window_append [(''a'', ''b'')] (''c'', ''d'')"
proof -
  have "history_wf [''a'', ''b'']" by (simp add: history_wf_def)
  from history_append_refines_window [OF this, of "''c''" "''d''"] show ?thesis by simp
qed

text \<open>C5. The prompt built from a non-empty well-formed history shows the last two
  exchanges at most, each as a \<open>You:\<close> line followed by its \<open>Argon:\<close> line, after the
  system preamble and before the new user line and the open \<open>Argon:\<close> marker.\<close>

theorem render_prompt_last_two_pairs:
  assumes "history_wf h" and "h \<noteq> []"
  shows "render_prompt clk h p =
           system_prompt clk @ ''Recent conversation:'' @ nl @
           join_lines (concat (map pair_lines (py_last 2 (pairs_of h)))) @ nl @ nl @
           ''You: '' @ p @ nl @ ''Argon:'' \<and>
         length (py_last 2 (pairs_of h)) \<le> 2"
proof -
  have e: "even (length h)" using assms(1) by (simp add: history_wf_def)
  then have "even (length (py_last (2 * 2) h))" by (auto simp: py_last_def elim!: evenE)
  then have "history_lines 0 (py_last 4 h) = concat (map pair_lines (py_last 2 (pairs_of h)))"
    using history_lines_pairs [of 0 "py_last 4 h"] pairs_of_py_last [OF e, of 2] by simp
  with assms(2) show ?thesis by (simp add: render_prompt_def length_py_last)
qed

lemma render_prompt_last_two_pairs_witness:
  "render_prompt (\<lparr>time_hm = ''10:00 AM'', date_long = [], date_short = []\<rparr>) [''q'', ''r''] ''p'' =
     system_prompt (\<lparr>time_hm = ''10:00 AM'', date_long = [], date_short = []\<rparr>) @ ''Recent conversation:'' @ nl @
     join_lines (concat (map pair_lines (py_last 2 (pairs_of [''q'', ''r''])))) @ nl @ nl @
     ''You: '' @ ''p'' @ nl @ ''Argon:''"
proof -
  have "history_wf [''q'', ''r'']" by (simp add: history_wf_def)
  from render_prompt_last_two_pairs [OF this] show ?thesis by simp
qed

end
