(* ===== verification/Dialogue_Session.thy ===== *)
theory Dialogue_Session
  imports Context_Window
begin

text \<open>
  The dialogue session: \<open>ask_gemma\<close> of \<open>src/Argon.py\<close> (lines 115--173). It marks the
  conversation active, builds the prompt from the context window, prints a thinking
  filler, runs \<open>ollama run gemma3:4b\<close> with the prompt on standard input and a 45 second
  deadline, and turns the outcome into the reply. The backend is a collaborator: its
  outcome is the datatype \<open>backend_result\<close> (the process finished with an exit status and
  its standard output, \<open>subprocess.TimeoutExpired\<close> was raised at the deadline, or another
  exception was raised, for example when \<open>ollama\<close> cannot be started). The lemmas give
  the reply and the new state for every outcome.
\<close>

section \<open>Definitions\<close>

datatype backend_result = Completed int string | Timed_Out | Failed

definition THINKING_RESPONSES :: "string list" where
  "THINKING_RESPONSES = [''Thinking...'', ''Processing...'', ''One moment...'']"

definition backend_timeout :: nat where
  "backend_timeout = 45"

definition ask_gemma ::
  "string \<Rightarrow> clock \<Rightarrow> nat \<Rightarrow> backend_result \<Rightarrow> argon_state \<Rightarrow> string \<times> argon_state" where
  "ask_gemma prompt clk r res s =
     (let s1 = s\<lparr>conversation_active := True\<rparr>;
          full_prompt = render_prompt clk (conversation_history s1) prompt;
          s2 = emit [Print (py_choice THINKING_RESPONSES r), Run_Backend full_prompt] s1
      in case res of
           Completed returncode stdout \<Rightarrow>
             (if returncode = 0 then
                (let response = py_strip stdout in
                 (response, s2\<lparr>conversation_history :=
                               history_append (conversation_history s2) prompt response\<rparr>))
              else (''Sorry, I\\'m having trouble processing that.'', s2))
         | Timed_Out \<Rightarrow> (''That\\'s taking too long to process. Can you rephrase?'', s2)
         | Failed \<Rightarrow> (''I encountered an error. Please try again.'', s2))"

text \<open>The fixed reply for each outcome that is not a successful completion.\<close>

definition fallback :: "backend_result \<Rightarrow> string" where
  "fallback res =
     (case res of
        Completed _ _ \<Rightarrow> ''Sorry, I\\'m having trouble processing that.''
      | Timed_Out \<Rightarrow> ''That\\'s taking too long to process. Can you rephrase?''
      | Failed \<Rightarrow> ''I encountered an error. Please try again.'')"

definition succeeded :: "backend_result \<Rightarrow> bool" where
  "succeeded res \<longleftrightarrow> (\<exists>out. res = Completed 0 out)"

text \<open>What \<open>ask_gemma\<close> does to the history, by outcome.\<close>

definition session_history :: "string \<Rightarrow> backend_result \<Rightarrow> string list \<Rightarrow> string list" where
  "session_history u res h =
     (case res of
        Completed rc stdout \<Rightarrow> if rc = 0 then history_append h u (py_strip stdout) else h
      | _ \<Rightarrow> h)"

section \<open>Lemmas\<close>

lemma ask_gemma_common:
  "ask_gemma p clk r res s = (reply, s') \<Longrightarrow>
   conversation_active s' \<and> is_speaking s' = is_speaking s \<and>
   interrupt_requested s' = interrupt_requested s \<and>
   out s' = out s @ [Print (py_choice THINKING_RESPONSES r),
                     Run_Backend (render_prompt clk (conversation_history s) p)]"
  by (auto simp: ask_gemma_def emit_def Let_def split: backend_result.splits if_splits)

lemma ask_gemma_history:
  "snd (ask_gemma p clk r res s) = s' \<Longrightarrow>
   conversation_history s' = conversation_history s \<or>
   conversation_history s' = history_append (conversation_history s) p (fst (ask_gemma p clk r res s))"
  by (auto simp: ask_gemma_def Let_def split: backend_result.splits)

lemma ask_gemma_history_eq:
  "conversation_history (snd (ask_gemma u c r res s)) = session_history u res (conversation_history s)"
  by (simp add: ask_gemma_def session_history_def Let_def split: backend_result.splits)

lemma session_history_wf [intro]: "history_wf h \<Longrightarrow> history_wf (session_history u res h)"
  by (auto simp: session_history_def split: backend_result.splits)

section \<open>Properties\<close>

text \<open>C6. When the backend exits with status 0, \<open>ask_gemma\<close> returns the stripped output,
  and the context window gains exactly that exchange (as the window of the specification,
  oldest pair evicted beyond four) and stays well formed; the conversation is marked active,
  and the thinking filler is printed before the backend is run on the prompt built from
  the history as it was.\<close>

theorem ask_gemma_success:
  assumes "history_wf (conversation_history s)"
    and "ask_gemma p clk r (Completed 0 stdout) s = (reply, s')"
  shows "reply = py_strip stdout \<and>
         pairs_of (conversation_history s') =
           window_append (pairs_of (conversation_history s)) (p, reply) \<and>
         history_wf (conversation_history s') \<and> conversation_active s' \<and>
         out s' = out s @ [Print (py_choice THINKING_RESPONSES r),
                           Run_Backend (render_prompt clk (conversation_history s) p)]"
  using assms history_append_pairs [OF assms(1)] history_wf_append [OF assms(1)]
  by (auto simp: ask_gemma_def Let_def)

lemma ask_gemma_success_witness:
  "fst (ask_gemma ''hi'' (\<lparr>time_hm = ''10:00 AM'', date_long = [], date_short = []\<rparr>) 0 (Completed 0 '' Hello! '') init_state) = ''Hello!'' \<and>
   pairs_of (conversation_history (snd (ask_gemma ''hi'' (\<lparr>time_hm = ''10:00 AM'', date_long = [], date_short = []\<rparr>) 0 (Completed 0 '' Hello! '') init_state))) =
     [(''hi'', ''Hello!'')]"
proof -
  have wf: "history_wf (conversation_history init_state)" by (simp add: init_state_def)
  have strip: "py_strip '' Hello! '' = ''Hello!''" by code_simp
  have "fst (ask_gemma ''hi'' (\<lparr>time_hm = ''10:00 AM'', date_long = [], date_short = []\<rparr>) 0 (Completed 0 '' Hello! '') init_state) = py_strip '' Hello! '' \<and>
        pairs_of (conversation_history (snd (ask_gemma ''hi'' (\<lparr>time_hm = ''10:00 AM'', date_long = [], date_short = []\<rparr>) 0 (Completed 0 '' Hello! '') init_state))) =
          window_append (pairs_of (conversation_history init_state))
            (''hi'', fst (ask_gemma ''hi'' (\<lparr>time_hm = ''10:00 AM'', date_long = [], date_short = []\<rparr>) 0 (Completed 0 '' Hello! '') init_state))"
    using ask_gemma_success [OF wf prod.collapse [symmetric]] by blast
  then show ?thesis using strip by (simp add: init_state_def window_append_def py_last_def)
qed

text \<open>C7. When the backend does not exit with status 0 (a non-zero status, the 45 second
  deadline, or any other exception), \<open>ask_gemma\<close> returns the fixed reply for that outcome
  and leaves the context window as it was; the three replies are distinct.\<close>

theorem ask_gemma_failure:
  assumes "\<not> succeeded res" and "ask_gemma p clk r res s = (reply, s')"
  shows "reply = fallback res \<and> conversation_history s' = conversation_history s \<and>
         fallback (Completed 1 []) \<noteq> fallback Timed_Out \<and>
         fallback Timed_Out \<noteq> fallback Failed \<and> fallback Failed \<noteq> fallback (Completed 1 [])"
  using assms
  by (auto simp: ask_gemma_def fallback_def succeeded_def Let_def split: backend_result.splits)

lemma ask_gemma_failure_witness:
  "fst (ask_gemma ''hi'' (\<lparr>time_hm = ''10:00 AM'', date_long = [], date_short = []\<rparr>) 0 Timed_Out init_state) =
     ''That\\'s taking too long to process. Can you rephrase?'' \<and>
   conversation_history (snd (ask_gemma ''hi'' (\<lparr>time_hm = ''10:00 AM'', date_long = [], date_short = []\<rparr>) 0 Timed_Out init_state)) = []"
proof -
  have "\<not> succeeded Timed_Out" by (simp add: succeeded_def)
  from ask_gemma_failure [OF this prod.collapse [symmetric]]
  show ?thesis by (simp add: fallback_def init_state_def)
qed

end
