(* ===== verification/Turn_Loop.thy ===== *)
theory Turn_Loop
  imports Utterance_Filter Router Dialogue_Session
begin

text \<open>
  The turn loop: \<open>main\<close> of \<open>src/Argon.py\<close> (lines 242--277). One turn listens, drops
  an empty result, offers the text to \<open>handle_wake_word\<close>, then to
  \<open>handle_casual_commands\<close>, and otherwise engages open dialogue through \<open>ask_gemma\<close>
  and speaks a non-empty reply. What the environment supplies to one turn (the capture, the
  clock, the random draw, the backend's outcome) is the record \<open>turn_input\<close>; a turn ends
  in the next turn, in \<open>break\<close> (\<open>Stop\<close>) or in an exception that leaves \<open>main\<close>
  (\<open>Crash\<close>). The \<open>while True\<close> loop is \<open>main_loop\<close> over the list of turn inputs the
  environment provides, and the states at the head of the loop are the inductive set
  \<open>reachable\<close>.
\<close>

section \<open>Definitions\<close>

record turn_input =
  heard :: capture
  now :: clock
  draw :: nat
  backend :: backend_result

datatype turn_outcome = Next_Turn | Stop | Crash

text \<open>Lines 270--277: engage dialogue for a text of more than one word, and while
  the conversation is active send the text to the backend and speak a non-empty reply.\<close>

definition dialogue_step :: "string \<Rightarrow> turn_input \<Rightarrow> argon_state \<Rightarrow> argon_state" where
  "dialogue_step user_text inp s =
     (let s3 = (if \<not> conversation_active s \<and> 1 < length (py_split user_text)
                then s\<lparr>conversation_active := True\<rparr> else s)
      in if conversation_active s3 then
           (case ask_gemma user_text (now inp) (draw inp) (backend inp) s3 of
              (reply, s4) \<Rightarrow> if reply \<noteq> [] then speak reply s4 else s4)
         else s3)"

text \<open>Lines 259--277, for a non-empty text.\<close>

definition main_dispatch :: "string \<Rightarrow> turn_input \<Rightarrow> argon_state \<Rightarrow> turn_outcome \<times> argon_state" where
  "main_dispatch user_text inp s =
     (case handle_wake_word user_text (draw inp) s of
        (True, s1) \<Rightarrow> (Next_Turn, s1)
      | (False, s1) \<Rightarrow>
          (case handle_casual_commands user_text (now inp) (draw inp) s1 of
             (Cmd_Exit, s2) \<Rightarrow> (Stop, s2)
           | (Cmd_Handled, s2) \<Rightarrow> (Next_Turn, s2)
           | (Cmd_None, s2) \<Rightarrow> (Next_Turn, dialogue_step user_text inp s2)))"

text \<open>Lines 254--277: one iteration of the loop.\<close>

definition main_turn :: "turn_input \<Rightarrow> argon_state \<Rightarrow> turn_outcome \<times> argon_state" where
  "main_turn inp s =
     (case listen (heard inp) s of
        (Inl e, s1) \<Rightarrow> (Crash, s1)
      | (Inr user_text, s1) \<Rightarrow>
          (if user_text = [] \<or> length (py_strip user_text) = 0 then (Next_Turn, s1)
           else main_dispatch user_text inp s1))"

text \<open>Lines 244--251: the banner and the greeting.\<close>

definition main_start :: argon_state where
  "main_start =
     speak ''Hello, I\\'m Argon.''
       (emit [Print (replicate 40 (CHR ''='')), Print ''ARGON - AI Assistant'',
              Print (replicate 40 (CHR ''='')), Print ''Say \\'Hey Argon\\' to start'',
              Print ''Say \\'go offline\\' to exit'', Print (replicate 40 (CHR ''=''))]
          init_state)"

text \<open>Line 253: \<open>while True\<close>, run over the turn inputs the environment provides; when
  they run out the program is still listening (\<open>Next_Turn\<close>).\<close>

fun main_loop :: "turn_input list \<Rightarrow> argon_state \<Rightarrow> turn_outcome \<times> argon_state" where
  "main_loop [] s = (Next_Turn, s)"
| "main_loop (i # is) s =
     (case main_turn i s of
        (Next_Turn, s') \<Rightarrow> main_loop is s'
      | (r, s') \<Rightarrow> (r, s'))"

definition main :: "turn_input list \<Rightarrow> turn_outcome \<times> argon_state" where
  "main inputs = main_loop inputs main_start"

inductive reachable :: "argon_state \<Rightarrow> bool" where
  start: "reachable main_start"
| turn: "reachable s \<Longrightarrow> main_turn i s = (Next_Turn, s') \<Longrightarrow> reachable s'"

inductive_cases reachable_turnE: "reachable s'"

text \<open>What holds at the head of the loop: the history is a well-formed window, nothing is
  being spoken, and no interrupt is pending.\<close>

definition turn_inv :: "argon_state \<Rightarrow> bool" where
  "turn_inv s \<longleftrightarrow>
     history_wf (conversation_history s) \<and> \<not> is_speaking s \<and> \<not> interrupt_requested s"

text \<open>A text that passed the filter: the length bounds and no hallucination.\<close>

definition valid_text :: "string \<Rightarrow> bool" where
  "valid_text u \<longleftrightarrow> 2 \<le> length u \<and> length u \<le> 200 \<and> \<not> is_whisper_hallucination u"

definition hist_valid :: "argon_state \<Rightarrow> bool" where
  "hist_valid s \<longleftrightarrow> (\<forall>p \<in> set (pairs_of (conversation_history s)). valid_text (fst p))"

subsection \<open>The turn of the specification\<close>

text \<open>Section 4.5 of the specification over the abstract state (the active flag and the
  window of pairs): an empty or rejected capture does nothing, an exit phrase terminates, a
  dialogue text extends the window by the stripped reply when the backend succeeds, every
  other action only updates the flag.\<close>

datatype spec_outcome = Keep_Listening | Terminate

definition abs_state :: "argon_state \<Rightarrow> bool \<times> (string \<times> string) list" where
  "abs_state s = (conversation_active s, pairs_of (conversation_history s))"

definition spec_turn ::
  "capture \<Rightarrow> backend_result \<Rightarrow> bool \<times> (string \<times> string) list \<Rightarrow>
   spec_outcome \<times> bool \<times> (string \<times> string) list" where
  "spec_turn c res st =
     (case st of (active, w) \<Rightarrow>
       (case c of
          Transcribed raw \<Rightarrow>
            (case filter_spec raw of
               None \<Rightarrow> (Keep_Listening, active, w)
             | Some u \<Rightarrow>
                 (case route u active of
                    (Exit, active') \<Rightarrow> (Terminate, active', w)
                  | (Dialogue, active') \<Rightarrow>
                      (Keep_Listening, active',
                       case res of
                         Completed rc stdout \<Rightarrow> if rc = 0 then window_append w (u, py_strip stdout) else w
                       | _ \<Rightarrow> w)
                  | (_, active') \<Rightarrow> (Keep_Listening, active', w)))
        | _ \<Rightarrow> (Keep_Listening, active, w)))"

text \<open>The specification's loop over the same inputs: turns until one terminates.\<close>

fun spec_run ::
  "turn_input list \<Rightarrow> bool \<times> (string \<times> string) list \<Rightarrow>
   spec_outcome \<times> bool \<times> (string \<times> string) list" where
  "spec_run [] st = (Keep_Listening, st)"
| "spec_run (i # is) st =
     (case spec_turn (heard i) (backend i) st of
        (Keep_Listening, st') \<Rightarrow> spec_run is st'
      | (Terminate, st') \<Rightarrow> (Terminate, st'))"

section \<open>Lemmas\<close>

lemma turn_inv_emit [simp]: "turn_inv (emit es s) = turn_inv s"
  by (simp add: turn_inv_def)

lemma turn_inv_active [simp]: "turn_inv (s\<lparr>conversation_active := b\<rparr>) = turn_inv s"
  by (simp add: turn_inv_def)

lemma turn_inv_speak [intro]: "turn_inv s \<Longrightarrow> turn_inv (speak t s)"
  by (simp add: turn_inv_def)

lemma handle_wake_word_inv: "turn_inv s \<Longrightarrow> turn_inv (snd (handle_wake_word u r s))"
  by (auto simp: handle_wake_word_def)

lemma handle_casual_commands_inv:
  "turn_inv s \<Longrightarrow> turn_inv (snd (handle_casual_commands u c r s))"
  by (auto simp: handle_casual_commands_def)

lemma ask_gemma_inv:
  assumes "turn_inv s"
  shows "turn_inv (snd (ask_gemma u c r res s))"
proof -
  obtain reply s' where e: "ask_gemma u c r res s = (reply, s')" by fastforce
  have "is_speaking s' = is_speaking s" "interrupt_requested s' = interrupt_requested s"
    using ask_gemma_common [OF e] by simp_all
  moreover have "history_wf (conversation_history s')"
    using ask_gemma_history [of u c r res s s'] e assms by (auto simp: turn_inv_def)
  ultimately show ?thesis using assms e by (simp add: turn_inv_def)
qed

lemma dialogue_step_inv:
  assumes inv: "turn_inv s"
  shows "turn_inv (dialogue_step u inp s)"
proof -
  have step: "turn_inv (case ask_gemma u (now inp) (draw inp) (backend inp) t of
                 (reply, s4) \<Rightarrow> if reply \<noteq> [] then speak reply s4 else s4)"
    if "turn_inv t" for t
    using ask_gemma_inv [OF that, of u "now inp" "draw inp" "backend inp"]
    by (cases "ask_gemma u (now inp) (draw inp) (backend inp) t") auto
  show ?thesis using inv step [of s] step [of "s\<lparr>conversation_active := True\<rparr>"]
    by (simp add: dialogue_step_def Let_def)
qed

lemma main_dispatch_inv:
  assumes inv: "turn_inv s"
  shows "turn_inv (snd (main_dispatch u inp s))"
proof -
  obtain b s1 where w: "handle_wake_word u (draw inp) s = (b, s1)" by fastforce
  have i1: "turn_inv s1" using handle_wake_word_inv [OF inv, of u "draw inp"] w by simp
  obtain c s2 where h: "handle_casual_commands u (now inp) (draw inp) s1 = (c, s2)" by fastforce
  have i2: "turn_inv s2" using handle_casual_commands_inv [OF i1, of u "now inp" "draw inp"] h by simp
  show ?thesis using w h i1 i2 dialogue_step_inv [OF i2, of u inp]
    by (cases b; cases c) (simp_all add: main_dispatch_def)
qed

lemma listen_inv:
  assumes "turn_inv s"
  shows "turn_inv (snd (listen c s))"
proof -
  obtain es where "snd (listen c s) = emit es s"
    using listen_emits [of c s "fst (listen c s)" "snd (listen c s)"] by auto
  with assms show ?thesis by simp
qed

lemma main_turn_inv:
  assumes "turn_inv s"
  shows "turn_inv (snd (main_turn inp s))"
proof -
  obtain r s1 where l: "listen (heard inp) s = (r, s1)" by fastforce
  have i1: "turn_inv s1" using listen_inv [OF assms, of "heard inp"] l by simp
  show ?thesis using l i1 main_dispatch_inv [OF i1] by (cases r) (auto simp: main_turn_def)
qed

lemma main_start_inv: "turn_inv main_start"
  by (auto simp: main_start_def turn_inv_def init_state_def)

subsection \<open>The dispatch, flattened\<close>

text \<open>The two handlers and the dialogue fallback of \<open>main\<close>, composed: one branch per
  phrase list, in the order the code tries them.\<close>

lemma main_dispatch_eq:
  "main_dispatch u inp s =
     (if mentions wake_words u then
        (Next_Turn, speak (py_choice WAKE_RESPONSES (draw inp)) (s\<lparr>conversation_active := True\<rparr>))
      else if mentions time_phrases u then
        (Next_Turn, (speak (''It\\'s '' @ time_hm (now inp) @ '' right now.'') s)\<lparr>conversation_active := True\<rparr>)
      else if mentions date_phrases u then
        (Next_Turn, (speak (''Today is '' @ date_short (now inp) @ ''.'') s)\<lparr>conversation_active := True\<rparr>)
      else if mentions status_phrases u then
        (Next_Turn, (speak (py_choice status_responses (draw inp)) s)\<lparr>conversation_active := True\<rparr>)
      else if mentions starter_phrases u then
        (Next_Turn, (speak (py_choice CONVERSATION_STARTERS (draw inp)) s)\<lparr>conversation_active := True\<rparr>)
      else if mentions exit_phrases u then (Stop, speak ''Going offline. Goodbye.'' s)
      else (Next_Turn, dialogue_step u inp s))"
  by (simp add: main_dispatch_def handle_wake_word_def handle_casual_commands_def)

lemma active_update_same [simp]: "conversation_active s \<Longrightarrow> s\<lparr>conversation_active := True\<rparr> = s"
  by (cases s) simp

lemma dialogue_step_idle:
  "\<not> conversation_active s \<Longrightarrow> \<not> 1 < length (py_split u) \<Longrightarrow> dialogue_step u inp s = s"
  by (simp add: dialogue_step_def)

lemma dialogue_step_engaged:
  assumes "conversation_active s \<or> 1 < length (py_split u)"
  shows "dialogue_step u inp s =
           (case ask_gemma u (now inp) (draw inp) (backend inp) (s\<lparr>conversation_active := True\<rparr>) of
              (reply, s4) \<Rightarrow> if reply \<noteq> [] then speak reply s4 else s4)"
  using assms by (cases "conversation_active s") (simp_all add: dialogue_step_def)

lemma dialogue_step_effects:
  assumes "conversation_active s \<or> 1 < length (py_split u)"
  shows "conversation_active (dialogue_step u inp s) \<and>
         (\<exists>reply. out (dialogue_step u inp s) =
            out s @ [Print (py_choice THINKING_RESPONSES (draw inp)),
                     Run_Backend (render_prompt (now inp) (conversation_history s) u)] @
            (if reply = [] then [] else spoken reply))"
proof -
  obtain reply s4 where e:
    "ask_gemma u (now inp) (draw inp) (backend inp) (s\<lparr>conversation_active := True\<rparr>) = (reply, s4)"
    by fastforce
  have c: "conversation_active s4 \<and>
           out s4 = out s @ [Print (py_choice THINKING_RESPONSES (draw inp)),
                             Run_Backend (render_prompt (now inp) (conversation_history s) u)]"
    using ask_gemma_common [OF e] by simp
  show ?thesis using c e dialogue_step_engaged [OF assms, of inp] by (cases "reply = []") auto
qed

lemma main_dispatch_active:
  "conversation_active (snd (main_dispatch u inp s)) = snd (route u (conversation_active s))"
  using dialogue_step_effects [of s u inp] dialogue_step_idle [of s u inp]
  by (auto simp: main_dispatch_eq route_def)

lemma main_dispatch_stop:
  "fst (main_dispatch u inp s) = Stop \<longleftrightarrow> fst (route u (conversation_active s)) = Exit"
  by (simp add: main_dispatch_eq route_def)

lemma main_dispatch_not_crash: "fst (main_dispatch u inp s) \<noteq> Crash"
  by (simp add: main_dispatch_eq)

lemma catalogs_nonempty [simp]:
  "WAKE_RESPONSES \<noteq> []" "status_responses \<noteq> []" "CONVERSATION_STARTERS \<noteq> []"
  by (simp_all add: WAKE_RESPONSES_def status_responses_def CONVERSATION_STARTERS_def)

lemma main_dispatch_events:
  assumes r: "route u (conversation_active s) = (a, act)"
    and d: "main_dispatch u inp s = (res, s')"
  shows "\<exists>es. out s' = out s @ es \<and>
            ((\<exists>q. Run_Backend q \<in> set es) \<longleftrightarrow> a = Dialogue) \<and>
            (a = WakeAck \<longrightarrow> (\<exists>w \<in> set WAKE_RESPONSES. es = spoken w)) \<and>
            (a = TimeQuery \<longrightarrow> es = spoken (''It\\'s '' @ time_hm (now inp) @ '' right now.'')) \<and>
            (a = DateQuery \<longrightarrow> es = spoken (''Today is '' @ date_short (now inp) @ ''.'')) \<and>
            (a = StatusQuery \<longrightarrow> (\<exists>w \<in> set status_responses. es = spoken w)) \<and>
            (a = ConversationStarter \<longrightarrow> (\<exists>w \<in> set CONVERSATION_STARTERS. es = spoken w)) \<and>
            (a = Exit \<longrightarrow> es = spoken ''Going offline. Goodbye.'') \<and>
            (a = Dialogue \<longrightarrow> (\<exists>reply. es = [Print (py_choice THINKING_RESPONSES (draw inp)),
                 Run_Backend (render_prompt (now inp) (conversation_history s) u)] @
                 (if reply = [] then [] else spoken reply))) \<and>
            (a = Continue \<longrightarrow> es = [] \<and> s' = s)"
proof (cases "mentions wake_words u \<or> mentions time_phrases u \<or> mentions date_phrases u \<or>
              mentions status_phrases u \<or> mentions starter_phrases u \<or> mentions exit_phrases u")
  case True
  then show ?thesis using r d
    by (auto simp: main_dispatch_eq route_def spoken_def py_choice_in split: if_splits)
next
  case False
  then have d': "s' = dialogue_step u inp s" and r': "route u (conversation_active s) =
      (if conversation_active s \<or> 1 < length (py_split u) then (Dialogue, True)
       else (Continue, conversation_active s))"
    using d by (simp_all add: main_dispatch_eq route_def)
  show ?thesis
  proof (cases "conversation_active s \<or> 1 < length (py_split u)")
    case True
    then show ?thesis using r r' d' dialogue_step_effects [OF True, of inp] by (auto simp: spoken_def)
  next
    case False
    then show ?thesis using r r' d' dialogue_step_idle [of s u inp] by auto
  qed
qed
lemma main_turn_accepted:
  assumes "heard inp = Transcribed raw" and "filter_spec raw = Some u"
  shows "main_turn inp s =
           main_dispatch u inp (emit [Print (CHR 0x0A # ''Listening...''), Print (''You: '' @ u)] s)"
proof -
  have u: "u = py_strip raw" "2 \<le> length u" using filter_spec_Some [OF assms(2)] by auto
  then have ne: "u \<noteq> []" by auto
  then have "py_strip u \<noteq> []" using py_strip_strip_ne [of raw] u(1) by simp
  with ne show ?thesis using assms by (simp add: main_turn_def listen_def transcript_text_Some)
qed

lemma main_turn_rejected:
  assumes "heard inp = Transcribed raw" and "filter_spec raw = None"
  shows "main_turn inp s = (Next_Turn, emit [Print (CHR 0x0A # ''Listening...'')] s)"
  using assms by (simp add: main_turn_def listen_def transcript_text_None)

lemma main_turn_no_transcript:
  assumes "\<forall>raw. heard inp \<noteq> Transcribed raw"
  shows "main_turn inp s =
           (if heard inp = Microphone_Error then (Crash, s)
            else (if heard inp = Capture_Error then Crash else Next_Turn,
                  emit [Print (CHR 0x0A # ''Listening...'')] s))"
  using assms by (cases "heard inp") (simp_all add: main_turn_def listen_def)

lemma route_active_stays: "snd (route u True) = True"
  by (simp add: route_def)

lemma main_turn_active:
  assumes "conversation_active s"
  shows "conversation_active (snd (main_turn inp s))"
proof (cases "\<exists>raw. heard inp = Transcribed raw")
  case True
  then obtain raw where h: "heard inp = Transcribed raw" by blast
  show ?thesis
  proof (cases "filter_spec raw")
    case None
    then show ?thesis using assms main_turn_rejected [OF h None] by simp
  next
    case (Some u)
    then show ?thesis
      using assms main_turn_accepted [OF h Some] main_dispatch_active [of u inp] route_active_stays [of u]
      by simp
  qed
next
  case False
  then show ?thesis using assms main_turn_no_transcript [of inp s] by simp
qed

lemma route_exit_any: "fst (route u b) = Exit \<Longrightarrow> fst (route u b') = Exit"
  by (simp add: route_def split: if_splits)

lemma main_turn_exit:
  assumes "heard e = Transcribed raw" and "filter_spec raw = Some u" and "fst (route u False) = Exit"
  shows "fst (main_turn e s) = Stop"
  using main_turn_accepted [OF assms(1,2)] main_dispatch_stop [of u e] route_exit_any [OF assms(3)]
  by simp
subsection \<open>Only filtered text enters the history\<close>

lemma filter_spec_valid: "filter_spec raw = Some u \<Longrightarrow> valid_text u"
  using hallucination_spec_form [of "py_strip raw"]
  by (auto simp: filter_spec_def valid_text_def Let_def split: if_splits)

lemma hist_valid_simps [simp]:
  "hist_valid (emit es s) = hist_valid s"
  "hist_valid (s\<lparr>conversation_active := b\<rparr>) = hist_valid s"
  "hist_valid (speak t s) = hist_valid s"
  by (simp_all add: hist_valid_def)

lemma set_window_append: "set (window_append w p) \<subseteq> insert p (set w)"
  by (auto simp: window_append_def py_last_def dest: in_set_dropD)

lemma ask_gemma_hist_valid:
  assumes "turn_inv s" and "hist_valid s" and "valid_text u"
  shows "hist_valid (snd (ask_gemma u c r res s))"
proof -
  obtain reply s' where e: "ask_gemma u c r res s = (reply, s')" by fastforce
  have wf: "history_wf (conversation_history s)" using assms(1) by (simp add: turn_inv_def)
  from ask_gemma_history [of u c r res s s'] e
  consider "conversation_history s' = conversation_history s"
    | "conversation_history s' = history_append (conversation_history s) u reply" by auto
  then show ?thesis
  proof cases
    case 1
    with assms(2) e show ?thesis by (simp add: hist_valid_def)
  next
    case 2
    then have "set (pairs_of (conversation_history s')) \<subseteq>
                 insert (u, reply) (set (pairs_of (conversation_history s)))"
      using history_append_pairs [OF wf] set_window_append by simp
    with assms(2,3) e show ?thesis by (auto simp: hist_valid_def)
  qed
qed

lemma dialogue_step_hist_valid:
  assumes "turn_inv s" and "hist_valid s" and "valid_text u"
  shows "hist_valid (dialogue_step u inp s)"
proof -
  have step: "hist_valid (case ask_gemma u (now inp) (draw inp) (backend inp) t of
                 (reply, s4) \<Rightarrow> if reply \<noteq> [] then speak reply s4 else s4)"
    if "turn_inv t" "hist_valid t" for t
    using ask_gemma_hist_valid [OF that assms(3), of "now inp" "draw inp" "backend inp"]
    by (cases "ask_gemma u (now inp) (draw inp) (backend inp) t") auto
  show ?thesis using assms step [of s] step [of "s\<lparr>conversation_active := True\<rparr>"]
    by (simp add: dialogue_step_def Let_def)
qed

lemma main_dispatch_hist_valid:
  assumes "turn_inv s" and "hist_valid s" and "valid_text u"
  shows "hist_valid (snd (main_dispatch u inp s))"
  using assms dialogue_step_hist_valid [OF assms] by (simp add: main_dispatch_eq)

lemma main_turn_hist_valid:
  assumes "turn_inv s" and "hist_valid s"
  shows "hist_valid (snd (main_turn inp s))"
proof (cases "\<exists>raw. heard inp = Transcribed raw")
  case True
  then obtain raw where h: "heard inp = Transcribed raw" by blast
  show ?thesis
  proof (cases "filter_spec raw")
    case None
    then show ?thesis using assms main_turn_rejected [OF h None] by simp
  next
    case (Some u)
    then show ?thesis
      using assms main_turn_accepted [OF h Some] filter_spec_valid [OF Some]
        main_dispatch_hist_valid [of "emit [Print (CHR 0x0A # ''Listening...''), Print (''You: '' @ u)] s" u inp]
      by simp
  qed
next
  case False
  then show ?thesis using assms main_turn_no_transcript [of inp s] by simp
qed

lemma main_loop_inv:
  "turn_inv s \<Longrightarrow> hist_valid s \<Longrightarrow> turn_inv (snd (main_loop ins s)) \<and> hist_valid (snd (main_loop ins s))"
proof (induction ins arbitrary: s)
  case Nil
  then show ?case by simp
next
  case (Cons i ins)
  obtain r s' where t: "main_turn i s = (r, s')" by fastforce
  have "turn_inv s'" "hist_valid s'"
    using main_turn_inv [OF Cons.prems(1), of i] main_turn_hist_valid [OF Cons.prems, of i] t by simp_all
  then show ?case using t Cons.IH [of s'] by (cases r) simp_all
qed

lemma main_start_hist_valid: "hist_valid main_start"
  by (simp add: main_start_def hist_valid_def init_state_def)

subsection \<open>The history across a turn\<close>

lemma dialogue_step_history:
  "conversation_history (dialogue_step u inp s) =
     (if conversation_active s \<or> 1 < length (py_split u)
      then session_history u (backend inp) (conversation_history s) else conversation_history s)"
proof (cases "conversation_active s \<or> 1 < length (py_split u)")
  case True
  obtain reply s4 where e:
    "ask_gemma u (now inp) (draw inp) (backend inp) (s\<lparr>conversation_active := True\<rparr>) = (reply, s4)"
    by fastforce
  have "conversation_history s4 = session_history u (backend inp) (conversation_history s)"
    using ask_gemma_history_eq [of u "now inp" "draw inp" "backend inp" "s\<lparr>conversation_active := True\<rparr>"] e
    by simp
  with True e show ?thesis by (simp add: dialogue_step_engaged)
next
  case False
  then show ?thesis by (simp add: dialogue_step_idle)
qed

lemma main_dispatch_history:
  "conversation_history (snd (main_dispatch u inp s)) =
     (if fst (route u (conversation_active s)) = Dialogue
      then session_history u (backend inp) (conversation_history s) else conversation_history s)"
  by (simp add: main_dispatch_eq route_def dialogue_step_history)

lemma pairs_session_history:
  "history_wf h \<Longrightarrow>
   pairs_of (session_history u res h) =
     (case res of Completed rc stdout \<Rightarrow> if rc = 0 then window_append (pairs_of h) (u, py_strip stdout) else pairs_of h
      | _ \<Rightarrow> pairs_of h)"
  by (simp add: session_history_def history_append_pairs split: backend_result.splits)

subsection \<open>The loop heads\<close>

lemma reachable_inv: "reachable s \<Longrightarrow> turn_inv s"
proof (induction rule: reachable.induct)
  case start
  show ?case by (rule main_start_inv)
next
  case (turn s i s')
  then show ?case using main_turn_inv [of s i] by simp
qed

subsection \<open>A turn against the turn of the specification\<close>

lemma main_turn_crashes:
  "fst (main_turn inp s) = Crash \<longleftrightarrow> heard inp = Microphone_Error \<or> heard inp = Capture_Error"
proof (cases "\<exists>raw. heard inp = Transcribed raw")
  case True
  then obtain raw where h: "heard inp = Transcribed raw" by blast
  show ?thesis
  proof (cases "filter_spec raw")
    case None
    then show ?thesis using h main_turn_rejected [OF h None] by simp
  next
    case (Some u)
    then show ?thesis using h main_turn_accepted [OF h Some] main_dispatch_not_crash [of u inp] by simp
  qed
next
  case False
  then show ?thesis using main_turn_no_transcript [of inp s] by auto
qed

lemma main_turn_history_wf:
  assumes wf: "history_wf (conversation_history s)"
  shows "history_wf (conversation_history (snd (main_turn inp s)))"
proof (cases "\<exists>raw. heard inp = Transcribed raw")
  case True
  then obtain raw where h: "heard inp = Transcribed raw" by blast
  show ?thesis
  proof (cases "filter_spec raw")
    case None
    then show ?thesis using wf main_turn_rejected [OF h None] by simp
  next
    case (Some u)
    let ?s1 = "emit [Print (CHR 0x0A # ''Listening...''), Print (''You: '' @ u)] s"
    show ?thesis using wf main_turn_accepted [OF h Some] main_dispatch_history [of u inp ?s1]
      by auto
  qed
next
  case False
  then show ?thesis using wf main_turn_no_transcript [of inp s] by simp
qed

lemma main_turn_abs:
  assumes wf: "history_wf (conversation_history s)"
    and nm: "heard inp \<noteq> Microphone_Error" and nc: "heard inp \<noteq> Capture_Error"
  shows "abs_state (snd (main_turn inp s)) = snd (spec_turn (heard inp) (backend inp) (abs_state s)) \<and>
         (fst (main_turn inp s) = Stop \<longleftrightarrow>
          fst (spec_turn (heard inp) (backend inp) (abs_state s)) = Terminate)"
proof (cases "\<exists>raw. heard inp = Transcribed raw")
  case True
  then obtain raw where h: "heard inp = Transcribed raw" by blast
  show ?thesis
  proof (cases "filter_spec raw")
    case None
    then show ?thesis using h main_turn_rejected [OF h None]
      by (simp add: abs_state_def spec_turn_def)
  next
    case (Some u)
    let ?s1 = "emit [Print (CHR 0x0A # ''Listening...''), Print (''You: '' @ u)] s"
    have t: "main_turn inp s = main_dispatch u inp ?s1" by (rule main_turn_accepted [OF h Some])
    obtain a act where r: "route u (conversation_active s) = (a, act)" by fastforce
    have act: "conversation_active (snd (main_dispatch u inp ?s1)) = act"
      using main_dispatch_active [of u inp ?s1] r by simp
    have stop: "fst (main_dispatch u inp ?s1) = Stop \<longleftrightarrow> a = Exit"
      using main_dispatch_stop [of u inp ?s1] r by simp
    have hist: "pairs_of (conversation_history (snd (main_dispatch u inp ?s1))) =
       (if a = Dialogue then
          (case backend inp of Completed rc stdout \<Rightarrow>
             if rc = 0 then window_append (pairs_of (conversation_history s)) (u, py_strip stdout)
             else pairs_of (conversation_history s)
           | _ \<Rightarrow> pairs_of (conversation_history s))
        else pairs_of (conversation_history s))"
      using main_dispatch_history [of u inp ?s1] r pairs_session_history [OF wf, of u "backend inp"] by simp
    show ?thesis using t h Some r act stop hist
      by (cases a) (simp_all add: abs_state_def spec_turn_def)
  qed
next
  case False
  with nm nc show ?thesis using main_turn_no_transcript [of inp s]
    by (cases "heard inp") (simp_all add: abs_state_def spec_turn_def)
qed

lemma main_loop_abs:
  assumes "history_wf (conversation_history s)"
    and "\<forall>i \<in> set ins. heard i \<noteq> Microphone_Error \<and> heard i \<noteq> Capture_Error"
  shows "abs_state (snd (main_loop ins s)) = snd (spec_run ins (abs_state s)) \<and>
         (fst (main_loop ins s) = Stop \<longleftrightarrow> fst (spec_run ins (abs_state s)) = Terminate) \<and>
         fst (main_loop ins s) \<noteq> Crash"
  using assms
proof (induction ins arbitrary: s)
  case Nil
  then show ?case by simp
next
  case (Cons i ins)
  obtain r s' where t: "main_turn i s = (r, s')" by fastforce
  obtain oc st' where sp: "spec_turn (heard i) (backend i) (abs_state s) = (oc, st')"
    by (cases "spec_turn (heard i) (backend i) (abs_state s)") blast
  have nm: "heard i \<noteq> Microphone_Error" and nc: "heard i \<noteq> Capture_Error" using Cons.prems(2) by auto
  have abs: "abs_state s' = st'" and stop: "r = Stop \<longleftrightarrow> oc = Terminate"
    using main_turn_abs [OF Cons.prems(1) nm nc] t sp by auto
  have nx: "r \<noteq> Crash" using main_turn_crashes [of i s] nm nc t by simp
  have wf': "history_wf (conversation_history s')" using main_turn_history_wf [OF Cons.prems(1), of i] t by simp
  show ?case
  proof (cases r)
    case Next_Turn
    then have "oc = Keep_Listening" using stop by (cases oc) auto
    then show ?thesis using Next_Turn t sp abs Cons.IH [OF wf'] Cons.prems(2) by simp
  next
    case Stop
    then show ?thesis using t sp abs stop by simp
  qed (use nx in simp)
qed

end
