(* ===== verification/Spec2Isabelle.thy ===== *)
theory Spec2Isabelle
  imports Turn_Loop
begin

text \<open>
  \<^bold>\<open>A verification model of Argon\<close> (\<open>src/Argon.py\<close>, one Python file of 280 lines): a
  voice assistant that listens, transcribes with Whisper, drops noisy transcripts, answers
  wake words and canned commands itself, and sends everything else to a language model
  (\<open>ollama run gemma3:4b\<close>) whose reply it speaks with \<open>say\<close>.

  \<^bold>\<open>Parts of the program and where they are modelled.\<close> Every theory is a shallow
  embedding: each Python function is one HOL definition with the same name, its module
  globals are the record \<open>argon_state\<close>, and every observable effect (a \<open>print\<close>, an
  \<open>os.system\<close> command, a run of the backend) is appended to the field \<open>out\<close>, so
  the order of effects is part of the state.
  \<^item> \<open>Prelude\<close>: Python's string primitives on HOL strings (characters are code points
    below 256, where \<open>str.isspace\<close>, \<open>str.isalnum\<close>, \<open>str.lower\<close> are written out
    exactly), \<open>str.strip\<close>, \<open>str.split\<close> (a \<open>function\<close> with its termination
    proof), \<open>' '.join\<close>, slicing \<open>xs[-n:]\<close>, \<open>random.choice\<close> with the draw as an
    input; the state record and the clock record (the \<open>strftime\<close> strings of one reading
    of \<open>datetime.now()\<close>); shared lemmas, among them the round trip
    \<open>py_split (py_join ws) = ws\<close> for words without white space.
  \<^item> \<open>Utterance_Filter\<close>: \<open>listen\<close> (lines 41--84) and \<open>is_whisper_hallucination\<close>
    (86--113). The microphone and Whisper are collaborators; their outcome is the datatype
    \<open>capture\<close>. \<open>filter_spec\<close> is the filter of the specification (section 4.1).
  \<^item> \<open>Speech\<close>: \<open>speak\<close> (175--188) with the regular expression of line 180 as
    \<open>clean_text\<close>.
  \<^item> \<open>Router\<close>: \<open>handle_wake_word\<close> (190--200), \<open>handle_casual_commands\<close>
    (202--240) and the canned catalogues (22--39); \<open>route\<close> is the router of the
    specification (section 4.2) over its action datatype.
  \<^item> \<open>Context_Window\<close>: the history update and the prompt of \<open>ask_gemma\<close>
    (122--143, 160--165); \<open>pairs_of\<close> and \<open>window_append\<close> are the window of at most
    four pairs of the specification (section 3).
  \<^item> \<open>Dialogue_Session\<close>: \<open>ask_gemma\<close> (115--173); the backend's outcome is the
    datatype \<open>backend_result\<close> (exit status and output, the 45 second deadline, any other
    exception).
  \<^item> \<open>Turn_Loop\<close>: \<open>main\<close> (242--277): one turn \<open>main_turn\<close>, its dispatch
    \<open>main_dispatch\<close> and \<open>dialogue_step\<close>, the loop \<open>main_loop\<close> over the inputs the
    environment provides, and the inductive set \<open>reachable\<close> of the states at the head
    of the loop. \<open>spec_turn\<close> and \<open>spec_run\<close> are the turn and the loop of the
    specification (section 4.5) over the abstract state \<open>abs_state\<close>: the active flag
    and the window of pairs.
  \<^item> This theory: the properties that span the components.

  \<^bold>\<open>What is proved.\<close>
  \<^item> Filter: the code implements the specification's filter although it orders the
    rules differently and splits odd word lists the other way (C1); what it rejects (C2);
    bounds on what it accepts and the echo of the accepted text (C3).
  \<^item> Context window: the flat history refines the specification's window of four pairs
    and stays of even length and at most eight entries (C4); the prompt shows at most the
    last two pairs, labels aligned (C5).
  \<^item> Session: the reply and the new window for a successful run (C6) and for each failure
    (C7).
  \<^item> Turn loop: the dispatch of \<open>main\<close> refines the specification's router, effect by
    effect (C8); the loop stops exactly on an accepted exit phrase (C9) and crashes exactly
    on an uncaught error of the microphone or of the capture (C10);
    \<open>conversation_active\<close> is never cleared (C11); an exit utterance ends every run (C12);
    every run of \<open>main\<close>, whatever its outcome, ends in a state with a well-formed
    history, no speech and no pending interrupt, whose history holds only filtered user text
    (C14); one turn of \<open>main\<close> refines the specification's turn on the abstract state
    (C15), and so does every run of \<open>main\<close> without capture errors, which never crashes
    (C16). The invariant also holds at every loop head in \<open>reachable\<close>, by rule induction
    (lemma \<open>reachable_inv\<close>).
  \<^item> Speech: the command given to the shell is \<open>say\<close> with one double-quoted word in
    which the shell expands nothing and which the text cannot close (C13). The word can
    still begin with \<open>-\<close>, which \<open>say\<close> reads as an option (lemma
    \<open>clean_text_leading_dash\<close>).

  \<^bold>\<open>Bounds, fuel and termination.\<close> Every definition is total and executable; the only
  recursion that is not structural, \<open>py_split\<close>, terminates by the measure \<open>length\<close>.
  The program's \<open>while True\<close> loop does not terminate by design; it is modelled as
  \<open>main_loop\<close> over a finite list of turn inputs (structural recursion, no fuel), which
  describes every finite prefix of a run, and liveness is stated as "the turn that hears
  an exit phrase ends the run, whatever comes before or after" (C12).

  \<^bold>\<open>Plan of the development.\<close> Modelled in this order, most important behaviour
  first: the turn loop and its invariant, the filter, the context window, the session, the
  router, speech output, then the specification's turn and loop and the refinement of
  \<open>main_turn\<close> and \<open>main\<close> by them. Further work: the flag bookkeeping of
  \<open>speak\<close> as intermediate states (\<open>is_speaking\<close> true while \<open>say\<close> runs); the
  capture parameters of \<open>listen\<close> (8 second timeout, 10 second phrase limit) as part of
  the capture interface.

  \<^bold>\<open>Not modelled.\<close> Audio capture, ambient calibration, the WAV file and Whisper
  (\<open>listen\<close> lines 42--65) are collaborators: only their outcome enters the model,
  including whether an error is raised before or after the \<open>Listening...\<close> line. The
  \<open>say\<close> program, the \<open>ollama\<close> process and the 45 second timer are collaborators
  whose results are inputs. \<open>strftime\<close> formatting is represented by its output strings.
  Text outside the code points 0--255 is not represented.
\<close>

section \<open>Properties of the whole program\<close>

text \<open>C8. The dispatch of \<open>main\<close> (the wake-word handler, then the command handler,
  then the dialogue fallback) implements the router of the specification: for the action
  \<open>route\<close> assigns to a text, the turn leaves \<open>conversation_active\<close> as \<open>route\<close>
  says, stops the loop exactly for \<open>Exit\<close>, and its effects are those of the action:
  the canned reply of the matching catalogue, spoken, and nothing else, for every canned
  action (the backend is never run); for \<open>Dialogue\<close> the thinking filler, one backend
  run on the prompt built from the current history and the reply spoken if it is not
  empty; for \<open>Continue\<close> no effect and no change of state.\<close>

theorem main_dispatch_refines_route:
  assumes "route u (conversation_active s) = (a, act)" and "main_dispatch u inp s = (res, s')"
  shows "conversation_active s' = act \<and> (res = Stop \<longleftrightarrow> a = Exit) \<and> res \<noteq> Crash \<and>
         (\<exists>es. out s' = out s @ es \<and>
            ((\<exists>q. Run_Backend q \<in> set es) \<longleftrightarrow> a = Dialogue) \<and>
            (a = WakeAck \<longrightarrow> (\<exists>w \<in> set WAKE_RESPONSES. es = spoken w)) \<and>
            (a = TimeQuery \<longrightarrow> es = spoken (''It\\'s '' @ time_hm (now inp) @ '' right now.'')) \<and>
            (a = DateQuery \<longrightarrow> es = spoken (''Today is '' @ date_short (now inp) @ ''.'')) \<and>
            (a = StatusQuery \<longrightarrow> (\<exists>w \<in> set status_responses. es = spoken w)) \<and>
            (a = ConversationStarter \<longrightarrow> (\<exists>w \<in> set CONVERSATION_STARTERS. es = spoken w)) \<and>
            (a = Exit \<longrightarrow> es = spoken ''Going offline. Goodbye.'') \<and>
            (a = Dialogue \<longrightarrow> (\<exists>reply. es = [Print (py_choice THINKING_RESPONSES (draw inp)),
                 Run_Backend (render_prompt (now inp) (conversation_history s) u)] @
                 (if reply = [] then [] else spoken reply))) \<and>
            (a = Continue \<longrightarrow> es = [] \<and> s' = s))"
  using main_dispatch_active [of u inp s] main_dispatch_stop [of u inp s]
    main_dispatch_not_crash [of u inp s] main_dispatch_events [OF assms] assms
  by simp

lemma main_dispatch_refines_route_witness:
  "conversation_active (snd (main_dispatch ''hey argon''
      \<lparr>heard = Wait_Timeout, now = \<lparr>time_hm = ''10:00 AM'', date_long = [], date_short = []\<rparr>,
       draw = 0, backend = Timed_Out\<rparr> init_state))"
proof -
  have m: "mentions wake_words ''hey argon''" by code_simp
  have r: "route ''hey argon'' (conversation_active init_state) = (WakeAck, True)"
    using m by (simp add: route_def)
  from main_dispatch_refines_route [OF r prod.collapse [symmetric]] show ?thesis by simp
qed

text \<open>C9. A turn ends the loop exactly when the capture yields a transcript that the
  filter accepts and that the router classifies as an exit phrase.\<close>

theorem main_turn_stop_iff:
  "fst (main_turn inp s) = Stop \<longleftrightarrow>
   (\<exists>raw u. heard inp = Transcribed raw \<and> filter_spec raw = Some u \<and>
            fst (route u (conversation_active s)) = Exit)"
proof (cases "\<exists>raw. heard inp = Transcribed raw")
  case True
  then obtain raw where h: "heard inp = Transcribed raw" by blast
  show ?thesis
  proof (cases "filter_spec raw")
    case None
    then show ?thesis using h main_turn_rejected [OF h None] by simp
  next
    case (Some u)
    then show ?thesis using h main_turn_accepted [OF h Some] main_dispatch_stop [of u inp] by simp
  qed
next
  case False
  then show ?thesis using main_turn_no_transcript [of inp s] by auto
qed

lemma main_turn_stop_iff_witness:
  "fst (main_turn \<lparr>heard = Transcribed ''go offline'', now = \<lparr>time_hm = [], date_long = [], date_short = []\<rparr>,
     draw = 0, backend = Timed_Out\<rparr> init_state) = Stop"
proof -
  have f: "filter_spec ''go offline'' = Some ''go offline''" by code_simp
  have r: "fst (route ''go offline'' (conversation_active init_state)) = Exit"
    by (simp add: init_state_def) code_simp
  from f r show ?thesis by (auto simp: main_turn_stop_iff)
qed

text \<open>C10. A turn leaves \<open>main\<close> with an uncaught exception exactly when opening the
  microphone fails or capturing the audio raises an error other than the listen timeout: the transcription's own errors,
  rejected transcripts and backend failures never end the loop.\<close>

theorem main_turn_crash_iff:
  "fst (main_turn inp s) = Crash \<longleftrightarrow> heard inp = Microphone_Error \<or> heard inp = Capture_Error"
  by (rule main_turn_crashes)

lemma main_turn_crash_iff_witness:
  "fst (main_turn \<lparr>heard = Capture_Error, now = \<lparr>time_hm = [], date_long = [], date_short = []\<rparr>,
     draw = 0, backend = Timed_Out\<rparr> init_state) = Crash"
  using main_turn_crash_iff [of "\<lparr>heard = Capture_Error, now = \<lparr>time_hm = [], date_long = [], date_short = []\<rparr>,
     draw = 0, backend = Timed_Out\<rparr>" init_state] by simp

text \<open>C11. Once the conversation is active it stays active for the rest of the run:
  no operation of the program clears \<open>conversation_active\<close>, not even the exit
  phrase.\<close>

theorem conversation_active_monotone:
  assumes "conversation_active s"
  shows "conversation_active (snd (main_loop ins s))"
  using assms
proof (induction ins arbitrary: s)
  case Nil
  then show ?case by simp
next
  case (Cons i ins)
  have a: "conversation_active (snd (main_turn i s))" by (rule main_turn_active [OF Cons.prems])
  show ?case using Cons.IH [OF a] a by (auto split: prod.splits turn_outcome.splits)
qed

lemma conversation_active_monotone_witness:
  "conversation_active (snd (main_loop
      [\<lparr>heard = Wait_Timeout, now = \<lparr>time_hm = [], date_long = [], date_short = []\<rparr>,
        draw = 0, backend = Timed_Out\<rparr>] (init_state\<lparr>conversation_active := True\<rparr>)))"
  by (rule conversation_active_monotone) simp

text \<open>C12. A turn that hears an exit utterance (a transcript the filter accepts and the
  router classifies as \<open>Exit\<close>) ends every run that reaches it, whatever turns came
  before it, and no later input has any effect.\<close>

theorem main_loop_exit:
  assumes "heard e = Transcribed raw" and "filter_spec raw = Some u" and "fst (route u False) = Exit"
  shows "fst (main_loop (xs @ e # ys) s) \<noteq> Next_Turn \<and>
         main_loop (xs @ e # ys) s = main_loop (xs @ [e]) s"
proof (induction xs arbitrary: s)
  case Nil
  obtain s' where "main_turn e s = (Stop, s')"
    using main_turn_exit [OF assms, of s] by (cases "main_turn e s") auto
  then show ?case by simp
next
  case (Cons x xs)
  obtain r s' where t: "main_turn x s = (r, s')" by fastforce
  show ?case
  proof (cases r)
    case Next_Turn
    have "main_loop (xs @ e # ys) s' = main_loop (xs @ [e]) s'"
      and "fst (main_loop (xs @ [e]) s') \<noteq> Next_Turn"
      using Cons.IH [of s'] by auto
    with t Next_Turn show ?thesis by simp
  qed (use t in simp_all)
qed

lemma main_loop_exit_witness:
  "fst (main_loop [\<lparr>heard = Transcribed ''go offline'',
                     now = \<lparr>time_hm = [], date_long = [], date_short = []\<rparr>,
                     draw = 0, backend = Timed_Out\<rparr>] init_state) \<noteq> Next_Turn"
proof -
  have f: "filter_spec ''go offline'' = Some ''go offline''" by code_simp
  have r: "fst (route ''go offline'' False) = Exit" by code_simp
  from main_loop_exit [OF _ f r, of "\<lparr>heard = Transcribed ''go offline'',
                     now = \<lparr>time_hm = [], date_long = [], date_short = []\<rparr>,
                     draw = 0, backend = Timed_Out\<rparr>" "[]" "[]" init_state]
  show ?thesis by simp
qed

text \<open>C14. Whatever the environment supplies, the state in which \<open>main\<close> ends (still
  listening, stopped or crashed) has a history of even length and at most eight entries,
  nothing being spoken, no pending interrupt, and every user line stored in the history is
  a text that passed the filter (2 to 200 characters, no hallucination): raw transcripts
  never reach the context window.\<close>

theorem main_run_invariant:
  "history_wf (conversation_history (snd (main ins))) \<and>
   \<not> is_speaking (snd (main ins)) \<and> \<not> interrupt_requested (snd (main ins)) \<and>
   (\<forall>p \<in> set (pairs_of (conversation_history (snd (main ins)))). valid_text (fst p))"
  using main_loop_inv [OF main_start_inv main_start_hist_valid, of ins]
  by (simp add: main_def turn_inv_def hist_valid_def)

lemma main_run_invariant_witness:
  "history_wf (conversation_history (snd (main []))) \<and>
   \<not> is_speaking (snd (main [])) \<and> \<not> interrupt_requested (snd (main []))"
  using main_run_invariant [of "[]"] by blast

text \<open>C15. One turn of \<open>main\<close> refines the turn of the specification (section 4.5):
  on the abstract state (the active flag and the window of pairs) the turn does what the
  specification's turn does, composed of its filter, its router and the session's contract,
  and it ends the loop exactly when the specification terminates; this holds for every
  capture except an uncaught error of the microphone or of the capture, where the code
  crashes (C10) while the specification keeps listening.\<close>

theorem main_turn_refines_spec_turn:
  assumes wf: "history_wf (conversation_history s)"
    and nm: "heard inp \<noteq> Microphone_Error" and nc: "heard inp \<noteq> Capture_Error"
  shows "abs_state (snd (main_turn inp s)) = snd (spec_turn (heard inp) (backend inp) (abs_state s)) \<and>
         (fst (main_turn inp s) = Stop \<longleftrightarrow>
          fst (spec_turn (heard inp) (backend inp) (abs_state s)) = Terminate)"
  by (rule main_turn_abs [OF wf nm nc])

lemma main_turn_refines_spec_turn_witness:
  "abs_state (snd (main_turn \<lparr>heard = Wait_Timeout, now = \<lparr>time_hm = [], date_long = [], date_short = []\<rparr>, draw = 0, backend = Timed_Out\<rparr> init_state)) =
     snd (spec_turn Wait_Timeout Timed_Out (abs_state init_state))"
proof -
  have "history_wf (conversation_history init_state)" by (simp add: init_state_def)
  then show ?thesis using main_turn_refines_spec_turn [of init_state] by simp
qed

text \<open>C16. A whole run of \<open>main\<close> refines the specification's loop: started from the
  greeting, over any inputs in which neither the microphone nor the capture raises, the run
  never crashes, ends with the active flag and the window of pairs that the
  specification's turns compute from an idle, empty state, and has stopped exactly when
  the specification has terminated.\<close>

theorem main_refines_spec_run:
  assumes "\<forall>i \<in> set ins. heard i \<noteq> Microphone_Error \<and> heard i \<noteq> Capture_Error"
  shows "abs_state (snd (main ins)) = snd (spec_run ins (False, [])) \<and>
         (fst (main ins) = Stop \<longleftrightarrow> fst (spec_run ins (False, [])) = Terminate) \<and>
         fst (main ins) \<noteq> Crash"
proof -
  have a: "abs_state main_start = (False, [])"
    by (simp add: main_start_def abs_state_def init_state_def)
  have wf: "history_wf (conversation_history main_start)"
    using main_start_inv by (simp add: turn_inv_def)
  show ?thesis using main_loop_abs [OF wf assms] a by (simp add: main_def)
qed

lemma main_refines_spec_run_witness:
  "fst (main [\<lparr>heard = Transcribed ''go offline'', now = \<lparr>time_hm = [], date_long = [], date_short = []\<rparr>,
               draw = 0, backend = Timed_Out\<rparr>]) \<noteq> Crash"
  using main_refines_spec_run [of "[\<lparr>heard = Transcribed ''go offline'',
    now = \<lparr>time_hm = [], date_long = [], date_short = []\<rparr>, draw = 0, backend = Timed_Out\<rparr>]"]
  by simp

end
